theory Spec2Isabelle
  imports Main
begin

section \<open>Values shared by the pages\<close>

text \<open>
  A JavaScript string is modelled as a \<^typ>\<open>string\<close>: one \<^typ>\<open>char\<close> per code unit, for
  strings whose code units are below 256. The strings of a record are plain text: they hold
  no markup of their own that the browser would parse into further elements.
\<close>

text \<open>Decimal rendering of a number, as template literals and \<open>String(n)\<close> produce it for
  integers.\<close>

definition digit_char :: "nat \<Rightarrow> char" where
  "digit_char d = ''0123456789'' ! d"

fun string_of_nat :: "nat \<Rightarrow> string" where
  "string_of_nat n =
     (if n < 10 then [digit_char n] else string_of_nat (n div 10) @ [digit_char (n mod 10)])"

declare string_of_nat.simps [simp del]

definition string_of_int :: "int \<Rightarrow> string" where
  "string_of_int i =
     (if i < 0 then CHR ''-'' # string_of_nat (nat (- i)) else string_of_nat (nat i))"

text \<open>The \<open>id\<close> member of a record is a JSON number or a JSON string.\<close>

datatype idval = IdNum int | IdStr string

section \<open>The overview page: project records and their cards\<close>

text \<open>
  A project record as the overview page reads it (\<open>project.id\<close>, \<open>project.title\<close>,
  \<open>project.description\<close>, \<open>project.technologies\<close>, \<open>project.image\<close>): the description is a
  string and the technologies are an array of strings; the image may be absent.
\<close>

record project =
  p_id :: idval
  p_title :: string
  p_description :: string
  p_technologies :: "string list"
  p_image :: "string option"

text \<open>
  The element \<open>createProjectCard\<close> returns, by the values its template interpolates; classes,
  inline styles and the animation delay are presentation and stay outside the model. The
  click listener of the card's button keeps \<open>project.id\<close>, held here in \<open>card_project_id\<close>.
\<close>

record card =
  card_image :: string
  card_title :: string
  card_description :: string
  card_tech :: "string list"
  card_more_tech :: "string option"
  card_project_id :: idval

definition placeholder_image :: string where
  "placeholder_image = ''./assets/images/project-placeholder.jpg''"

text \<open>\<open>project.image || placeholder\<close>: an absent or empty image is falsy.\<close>

definition image_or_placeholder :: "string option \<Rightarrow> string" where
  "image_or_placeholder im =
     (case im of None \<Rightarrow> placeholder_image
      | Some u \<Rightarrow> if u = [] then placeholder_image else u)"

definition shortDescription :: "project \<Rightarrow> string" where
  "shortDescription project =
     (if length (p_description project) > 120
      then take 120 (p_description project) @ ''...''
      else p_description project)"

definition displayTechnologies :: "project \<Rightarrow> string list" where
  "displayTechnologies project = take 4 (p_technologies project)"

definition hasMoreTech :: "project \<Rightarrow> bool" where
  "hasMoreTech project \<longleftrightarrow> length (p_technologies project) > 4"

definition createProjectCard :: "project \<Rightarrow> nat \<Rightarrow> card" where
  "createProjectCard project index =
     \<lparr> card_image = image_or_placeholder (p_image project),
       card_title = p_title project,
       card_description = shortDescription project,
       card_tech = displayTechnologies project,
       card_more_tech =
         (if hasMoreTech project
          then Some (''+'' @ string_of_nat (length (p_technologies project) - 4) @ '' more'')
          else None),
       card_project_id = p_id project \<rparr>"

subsection \<open>The projects grid, the cache and the timers\<close>

text \<open>
  The children of \<open>#projects-grid\<close>. A view-more container holds the toggle button, given by
  its text and its \<open>disabled\<close> flag; the error placeholder holds the message and the
  \<open>Try Again\<close> button whose \<open>onclick\<close> is \<open>loadProjects()\<close>. Every element created gets a
  fresh number, so that a callback which captured an element removes that very element.
  \<open>document.querySelector\<close> for the toggle button and its container is resolved inside the
  grid: the other sections of the page are not part of the model.
\<close>

datatype node =
    ProjectCard card
  | ViewMoreContainer string bool
  | ProjectsLoading
  | ProjectsError

type_synonym element = "nat \<times> node"

text \<open>
  The callbacks handed to \<open>setTimeout\<close> that change the structure of the grid. Callbacks
  that only set classes or styles (the fade-in of a card, \<open>initializeEnhancedButtons\<close>) are
  not modelled.
\<close>

datatype task =
    ExpandTimeout "nat option"
  | AddShowLess
  | FadeOutCard nat
  | RemoveCard nat
  | SwapToViewMore nat

datatype js_error = TypeError | HttpError nat | SyntaxError | InvalidStructure | SendFailed

record page =
  projectsGrid :: "element list option"
  allProjects :: "project list option"
  next_id :: nat
  clock :: nat
  timers :: "(nat \<times> task) list"
  requests :: "string list"

definition projectsDataPath :: string where
  "projectsDataPath = ''./data/projects.json''"

definition nodes :: "page \<Rightarrow> node list" where
  "nodes s = (case projectsGrid s of None \<Rightarrow> [] | Some g \<Rightarrow> map snd g)"

definition is_card :: "node \<Rightarrow> bool" where
  "is_card n = (case n of ProjectCard _ \<Rightarrow> True | _ \<Rightarrow> False)"

definition is_container :: "node \<Rightarrow> bool" where
  "is_container n = (case n of ViewMoreContainer _ _ \<Rightarrow> True | _ \<Rightarrow> False)"

text \<open>\<open>setTimeout(callback, delay)\<close>: the callback is due \<open>delay\<close> after now.\<close>

definition setTimeout :: "task \<Rightarrow> nat \<Rightarrow> page \<Rightarrow> page" where
  "setTimeout t delay s = s\<lparr>timers := timers s @ [(clock s + delay, t)]\<rparr>"

text \<open>\<open>elements.projectsGrid.appendChild(el)\<close> for a newly created element.\<close>

definition appendChild :: "node \<Rightarrow> page \<Rightarrow> page" where
  "appendChild n s =
     s\<lparr>projectsGrid := map_option (\<lambda>g. g @ [(next_id s, n)]) (projectsGrid s),
       next_id := Suc (next_id s)\<rparr>"

text \<open>\<open>el.remove()\<close>: nothing happens when the element is no longer in the grid.\<close>

definition remove_element :: "nat \<Rightarrow> page \<Rightarrow> page" where
  "remove_element i s =
     s\<lparr>projectsGrid := map_option (filter (\<lambda>e. fst e \<noteq> i)) (projectsGrid s)\<rparr>"

definition js_count :: "int \<Rightarrow> string" where
  "js_count n = string_of_int n"

definition view_more_label :: "nat \<Rightarrow> string" where
  "view_more_label n = ''View More Projects ('' @ js_count (int n - 3) @ '' more)''"

definition show_less_label :: string where
  "show_less_label = ''Show Less Projects''"

definition loading_label :: string where
  "loading_label = ''Loading...''"

text \<open>\<open>xs.forEach((project, index) => grid.appendChild(createProjectCard(project, index + k)))\<close>\<close>

fun append_cards :: "nat \<Rightarrow> project list \<Rightarrow> page \<Rightarrow> page" where
  "append_cards k [] s = s"
| "append_cards k (project # ps) s =
     append_cards (Suc k) ps (appendChild (ProjectCard (createProjectCard project k)) s)"

definition displayProjects :: "project list \<Rightarrow> page \<Rightarrow> page" where
  "displayProjects projects s =
     (case projectsGrid s of
        None \<Rightarrow> s
      | Some _ \<Rightarrow>
          let s1 = s\<lparr>projectsGrid := Some [], allProjects := Some projects\<rparr>;
              initialProjects = take 3 projects;
              s2 = append_cards 0 initialProjects s1
          in if length projects > 3
             then appendChild (ViewMoreContainer (view_more_label (length projects)) False) s2
             else s2)"

subsection \<open>Expanding and contracting the list\<close>

text \<open>The first view-more container of the grid, with its number.\<close>

definition find_container :: "page \<Rightarrow> element option" where
  "find_container s =
     (case projectsGrid s of None \<Rightarrow> None | Some g \<Rightarrow> find (\<lambda>e. is_container (snd e)) g)"

definition card_ids :: "page \<Rightarrow> nat list" where
  "card_ids s =
     (case projectsGrid s of None \<Rightarrow> []
      | Some g \<Rightarrow> map fst (filter (\<lambda>e. is_card (snd e)) g))"

text \<open>\<open>viewMoreBtn.innerHTML = ...; viewMoreBtn.disabled = true\<close> on the button of container \<open>i\<close>.\<close>

definition set_button :: "nat \<Rightarrow> string \<Rightarrow> bool \<Rightarrow> page \<Rightarrow> page" where
  "set_button i txt dis s =
     s\<lparr>projectsGrid :=
         map_option (map (\<lambda>e. if fst e = i then (i, ViewMoreContainer txt dis) else e))
           (projectsGrid s)\<rparr>"

definition expandProjectsView :: "page \<Rightarrow> js_error + page" where
  "expandProjectsView s =
     (case allProjects s of
        None \<Rightarrow> Inr s
      | Some _ \<Rightarrow>
          (case find_container s of
             None \<Rightarrow> Inl TypeError
           | Some (i, _) \<Rightarrow>
               Inr (setTimeout (ExpandTimeout (Some i)) 500 (set_button i loading_label True s))))"

fun schedule_fade :: "nat \<Rightarrow> nat list \<Rightarrow> page \<Rightarrow> page" where
  "schedule_fade index [] s = s"
| "schedule_fade index (c # cs) s =
     schedule_fade (Suc index) cs (setTimeout (FadeOutCard c) (index * 50) s)"

definition contractProjectsView :: "page \<Rightarrow> page" where
  "contractProjectsView s =
     (case allProjects s of
        None \<Rightarrow> s
      | Some _ \<Rightarrow>
          let cardsToRemove = drop 3 (card_ids s);
              s1 = schedule_fade 0 cardsToRemove s
          in (case find_container s of
                None \<Rightarrow> s1
              | Some (i, _) \<Rightarrow>
                  setTimeout (SwapToViewMore i) (length cardsToRemove * 50 + 200) s1))"

definition toggleProjectsView :: "page \<Rightarrow> js_error + page" where
  "toggleProjectsView s =
     (case projectsGrid s of
        None \<Rightarrow> Inl TypeError
      | Some _ \<Rightarrow>
          if length (card_ids s) > 3 then Inr (contractProjectsView s)
          else expandProjectsView s)"

text \<open>The bodies of the timer callbacks.\<close>

definition run_task :: "task \<Rightarrow> page \<Rightarrow> page" where
  "run_task t s =
     (case t of
        ExpandTimeout c \<Rightarrow>
          (let s1 = (case c of None \<Rightarrow> s | Some i \<Rightarrow> remove_element i s)
           in case allProjects s1 of
                None \<Rightarrow> s1
              | Some projects \<Rightarrow>
                  let remainingProjects = drop 3 projects;
                      s2 = append_cards 3 remainingProjects s1
                  in setTimeout AddShowLess (length remainingProjects * 100 + 200) s2)
      | AddShowLess \<Rightarrow> appendChild (ViewMoreContainer show_less_label False) s
      | FadeOutCard i \<Rightarrow> setTimeout (RemoveCard i) 400 s
      | RemoveCard i \<Rightarrow> remove_element i s
      | SwapToViewMore i \<Rightarrow>
          (let s1 = remove_element i s
           in case allProjects s1 of
                None \<Rightarrow> s1
              | Some projects \<Rightarrow>
                  appendChild (ViewMoreContainer (view_more_label (length projects)) False) s1))"

text \<open>
  The timer that fires next is one with the earliest due time, the one set first among
  equals; the list keeps the order in which the timers were set.
\<close>

fun pop_timer :: "(nat \<times> task) list \<Rightarrow> ((nat \<times> task) \<times> (nat \<times> task) list) option" where
  "pop_timer [] = None"
| "pop_timer (x # xs) =
     (case pop_timer xs of
        None \<Rightarrow> Some (x, [])
      | Some (y, ys) \<Rightarrow> if fst x \<le> fst y then Some (x, xs) else Some (y, x # ys))"

definition fire_next :: "page \<Rightarrow> page" where
  "fire_next s =
     (case pop_timer (timers s) of
        None \<Rightarrow> s
      | Some ((due, t), rest) \<Rightarrow> run_task t (s\<lparr>timers := rest, clock := max (clock s) due\<rparr>))"

fun weight :: "task \<Rightarrow> nat" where
  "weight (ExpandTimeout _) = 2"
| "weight (FadeOutCard _) = 2"
| "weight _ = 1"

definition pending :: "page \<Rightarrow> nat" where
  "pending s = sum_list (map (\<lambda>x. weight (snd x)) (timers s))"

text \<open>
  Running the page until no timer is pending. Every callback sets fewer timers than it
  weighs, so the loop ends.
\<close>

lemma append_cards_frame [simp]:
  "timers (append_cards k ps s) = timers s"
  "allProjects (append_cards k ps s) = allProjects s"
  "requests (append_cards k ps s) = requests s"
  "clock (append_cards k ps s) = clock s"
  by (induction k ps s rule: append_cards.induct) (simp_all add: appendChild_def)

lemma pop_timer_None [simp]: "pop_timer ts = None \<longleftrightarrow> ts = []"
  by (cases ts) (auto split: option.splits)

lemma pop_timer_weight:
  "pop_timer ts = Some (x, rest) \<Longrightarrow>
     sum_list (map (\<lambda>x. weight (snd x)) ts) =
       weight (snd x) + sum_list (map (\<lambda>x. weight (snd x)) rest)"
  by (induction ts arbitrary: x rest) (auto split: option.splits if_splits)

lemma pending_run_task: "pending (run_task t s) < weight t + pending s"
  by (cases t)
    (auto simp: run_task_def pending_def setTimeout_def appendChild_def remove_element_def
      Let_def split: option.splits)

function run_timers :: "page \<Rightarrow> page" where
  "run_timers s =
     (case pop_timer (timers s) of None \<Rightarrow> s | Some _ \<Rightarrow> run_timers (fire_next s))"
  by pat_completeness auto
termination
proof (relation "measure pending")
  show "wf (measure pending)" by simp
next
  fix s :: page and x
  assume a: "pop_timer (timers s) = Some x"
  obtain due t rest where x: "x = ((due, t), rest)" by (metis prod.exhaust)
  from a x have w: "pending s = weight t + sum_list (map (\<lambda>x. weight (snd x)) rest)"
    using pop_timer_weight[of "timers s" "(due, t)" rest] by (simp add: pending_def)
  have "pending (fire_next s)
      < weight t + pending (s\<lparr>timers := rest, clock := max (clock s) due\<rparr>)"
    using a x by (simp add: fire_next_def pending_run_task)
  then show "(fire_next s, s) \<in> measure pending"
    using w by (simp add: pending_def)
qed

declare run_timers.simps [simp del]

text \<open>
  A click on the toggle button: a disabled button fires no click event, and an exception
  thrown by the handler leaves the page as it is (the handlers throw before they change
  anything).
\<close>

definition click_toggle :: "page \<Rightarrow> page" where
  "click_toggle s =
     (case find_container s of
        Some (i, ViewMoreContainer txt False) \<Rightarrow>
          (case toggleProjectsView s of Inl e \<Rightarrow> s | Inr s' \<Rightarrow> s')
      | _ \<Rightarrow> s)"

datatype event = Click | Timer

fun run_events :: "event list \<Rightarrow> page \<Rightarrow> page" where
  "run_events [] s = s"
| "run_events (Click # es) s = run_events es (click_toggle s)"
| "run_events (Timer # es) s = run_events es (fire_next s)"

definition cards_for :: "nat \<Rightarrow> project list \<Rightarrow> node list" where
  "cards_for k ps = map (\<lambda>(i, p). ProjectCard (createProjectCard p i)) (enumerate k ps)"

subsection \<open>Fetched documents\<close>

text \<open>
  A value as \<open>response.json()\<close> returns it, or \<open>undefined\<close> as a property read may. Numbers
  are the integers. An array holds records of the shape its reader expects (type \<open>'r\<close>):
  what the code does with an array element of another shape is outside the model. An object
  is the list of its own members.
\<close>

datatype 'r jsval =
    JUndefined
  | JNull
  | JBool bool
  | JNum int
  | JStr string
  | JArr "'r list"
  | JObj "(string \<times> 'r jsval) list"

fun js_truthy :: "'r jsval \<Rightarrow> bool" where
  "js_truthy JUndefined = False"
| "js_truthy JNull = False"
| "js_truthy (JBool b) = b"
| "js_truthy (JNum n) = (n \<noteq> 0)"
| "js_truthy (JStr s) = (s \<noteq> [])"
| "js_truthy (JArr xs) = True"
| "js_truthy (JObj kv) = True"

text \<open>
  The property read \<open>v.k\<close>, for the keys the pages read (\<open>projects\<close>, \<open>errors\<close>, \<open>length\<close>):
  reading a property of \<open>null\<close> or \<open>undefined\<close> throws a TypeError, a missing property
  is \<open>undefined\<close>.
\<close>

fun js_get :: "'r jsval \<Rightarrow> string \<Rightarrow> js_error + 'r jsval" where
  "js_get JUndefined k = Inl TypeError"
| "js_get JNull k = Inl TypeError"
| "js_get (JBool b) k = Inr JUndefined"
| "js_get (JNum n) k = Inr JUndefined"
| "js_get (JStr s) k = Inr (if k = ''length'' then JNum (int (length s)) else JUndefined)"
| "js_get (JArr xs) k = Inr (if k = ''length'' then JNum (int (length xs)) else JUndefined)"
| "js_get (JObj kv) k = Inr (case map_of kv k of None \<Rightarrow> JUndefined | Some v \<Rightarrow> v)"

fun isArray :: "'r jsval \<Rightarrow> bool" where
  "isArray (JArr xs) = True"
| "isArray _ = False"

fun array_items :: "'r jsval \<Rightarrow> 'r list" where
  "array_items (JArr xs) = xs"
| "array_items _ = []"

text \<open>
  What one \<open>fetch\<close> comes to: the promise rejects (a network error), or it resolves to a
  response with a status and a body that \<open>response.json()\<close> parses or rejects.
\<close>

datatype 'r body = NotJSON | Parsed "'r jsval"

datatype 'r fetch_result = NetworkError | Response nat "'r body"

definition response_ok :: "nat \<Rightarrow> bool" where
  "response_ok status \<longleftrightarrow> 200 \<le> status \<and> status \<le> 299"

subsection \<open>Loading the projects\<close>

text \<open>\<open>elements.projectsGrid.innerHTML = markup\<close>, for markup of one element.\<close>

definition set_innerHTML :: "node list \<Rightarrow> page \<Rightarrow> page" where
  "set_innerHTML ns s =
     s\<lparr>projectsGrid := Some (enumerate (next_id s) ns), next_id := next_id s + length ns\<rparr>"

definition showProjectsLoading :: "page \<Rightarrow> page" where
  "showProjectsLoading s =
     (case projectsGrid s of None \<Rightarrow> s | Some _ \<Rightarrow> set_innerHTML [ProjectsLoading] s)"

definition sampleProject :: project where
  "sampleProject =
     \<lparr> p_id = IdNum 1,
       p_title = ''Sample Project'',
       p_description = ''This is a sample project to demonstrate the project card functionality. Click 'View More Details' to see the project detail page.'',
       p_technologies = [''JavaScript'', ''HTML'', ''CSS'', ''Sample Tech''],
       p_image = Some ''./assets/images/project-placeholder.jpg'' \<rparr>"

definition showProjectsError :: "page \<Rightarrow> page" where
  "showProjectsError s =
     (case projectsGrid s of
        None \<Rightarrow> s
      | Some _ \<Rightarrow>
          let s1 = set_innerHTML [ProjectsError] s;
              sampleCard = createProjectCard sampleProject 0
          in appendChild (ProjectCard sampleCard) s1)"

text \<open>The body of the \<open>try\<close> block after the request went out.\<close>

definition loadProjects_try :: "project fetch_result \<Rightarrow> page \<Rightarrow> js_error + page" where
  "loadProjects_try r s =
     (case r of
        NetworkError \<Rightarrow> Inl TypeError
      | Response status b \<Rightarrow>
          if \<not> response_ok status then Inl (HttpError status)
          else (case b of
                  NotJSON \<Rightarrow> Inl SyntaxError
                | Parsed data \<Rightarrow>
                    (case js_get data ''projects'' of
                       Inl e \<Rightarrow> Inl e
                     | Inr projects \<Rightarrow>
                         if js_truthy projects \<and> isArray projects
                         then Inr (displayProjects (array_items projects) s)
                         else Inl InvalidStructure)))"

text \<open>
  \<open>loadProjects\<close>, run from the call to the end of its \<open>catch\<close>, for the given outcome of
  its one \<open>fetch\<close>; the request is logged in \<open>requests\<close>.
\<close>

definition loadProjects :: "project fetch_result \<Rightarrow> page \<Rightarrow> page" where
  "loadProjects r s =
     (let s1 = showProjectsLoading s;
          s2 = s1\<lparr>requests := requests s1 @ [projectsDataPath]\<rparr>
      in case loadProjects_try r s2 of
           Inl e \<Rightarrow> showProjectsError s2
         | Inr s3 \<Rightarrow> s3)"

text \<open>A click on \<open>Try Again\<close>, when the error placeholder is shown.\<close>

definition click_retry :: "project fetch_result \<Rightarrow> page \<Rightarrow> page" where
  "click_retry r s = (if ProjectsError \<in> set (nodes s) then loadProjects r s else s)"

definition has_projects_array :: "project jsval \<Rightarrow> bool" where
  "has_projects_array data =
     (case js_get data ''projects'' of Inr (JArr ps) \<Rightarrow> True | _ \<Rightarrow> False)"

text \<open>
  The ways a projects fetch fails: a network error, a status outside 200..299, a body that
  is not JSON, or a document without an array under \<open>projects\<close>.
\<close>

fun failed_fetch :: "project fetch_result \<Rightarrow> bool" where
  "failed_fetch NetworkError = True"
| "failed_fetch (Response status NotJSON) = True"
| "failed_fetch (Response status (Parsed data)) =
     (\<not> response_ok status \<or> \<not> has_projects_array data)"

section \<open>The overview page: the blogs section\<close>

text \<open>
  A blog record, with the members the pages read. The card keeps \<open>publishDate\<close> as it is in
  the record: the locale formatting of the date is not modelled.
\<close>

record blog =
  b_id :: idval
  b_title :: string
  b_shortDescription :: string
  b_keywords :: "string list"
  b_category :: string
  b_publishDate :: string
  b_readTime :: string
  b_image :: "string option"
  b_fullContent :: string
  b_author :: string
  b_tags :: "string list"






definition blogsDataPath :: string where
  "blogsDataPath = ''./data/blogs.json''"


text \<open>A function that returns, or throws with the page as it is at the throw.\<close>

datatype 's outcome = Returned 's | Threw js_error 's








section \<open>The contact form\<close>

text \<open>
  White space as \<open>String.prototype.trim\<close> and the class \<open>\s\<close> of a regular expression see
  it, among the code units below 256: tab, line feed, vertical tab, form feed, carriage
  return, space and the no-break space.
\<close>

definition is_js_space :: "char \<Rightarrow> bool" where
  "is_js_space c \<longleftrightarrow> (of_char c :: nat) \<in> {9, 10, 11, 12, 13, 32, 160}"

definition js_trim :: "string \<Rightarrow> string" where
  "js_trim s = rev (dropWhile is_js_space (rev (dropWhile is_js_space s)))"

text \<open>
  \<open>/^[^\s@]+@[^\s@]+\.[^\s@]+$/.test(email)\<close>: the string is a non-empty run, an \<open>@\<close>, a
  non-empty run, a dot and a non-empty run, where no run holds white space or an \<open>@\<close> (a
  run may hold dots). So there is exactly one \<open>@\<close>, not in front, no white space, and after
  the \<open>@\<close> a dot that is neither the first nor the last character.
\<close>

definition isValidEmail :: "string \<Rightarrow> bool" where
  "isValidEmail email =
     (let local = takeWhile (\<lambda>c. c \<noteq> CHR ''@'') email;
          rest = dropWhile (\<lambda>c. c \<noteq> CHR ''@'') email
      in local \<noteq> [] \<and> rest \<noteq> [] \<and>
         list_all (\<lambda>c. \<not> is_js_space c) email \<and>
         CHR ''@'' \<notin> set (tl rest) \<and>
         CHR ''.'' \<in> set (butlast (tl (tl rest))))"

text \<open>
  The form in the page: the names of the elements that carry a \<open>name\<close> attribute, the error
  element shown for a field (\<open>data-error-for\<close> and its text), the submit button if there is
  one, the messages under the form, the values of the controls and the requests sent. The
  classes set on a field, the announcements to screen readers and the timers that take a
  message away again are not modelled.
\<close>

record submit_button =
  btn_disabled :: bool
  btn_text :: string
  btn_loading :: bool

datatype form_message = FormSuccess | FormError string

datatype form_task = SubmitDone

record form =
  form_action :: string
  named_elements :: "string list"
  field_errors :: "string \<rightharpoonup> string"
  submitButton :: "submit_button option"
  form_messages :: "form_message list"
  control_values :: "string \<rightharpoonup> string"
  default_values :: "string \<rightharpoonup> string"
  form_requests :: "(string \<times> string) list"
  form_timers :: "(nat \<times> form_task) list"

definition showFieldError :: "string \<Rightarrow> string \<Rightarrow> form \<Rightarrow> form" where
  "showFieldError fieldName message s =
     (if fieldName \<notin> set (named_elements s) then s
      else s\<lparr>field_errors := (field_errors s)(fieldName \<mapsto> message)\<rparr>)"

definition requiredFields :: "string list" where
  "requiredFields = [''name'', ''email'', ''subject'', ''message'']"

text \<open>\<open>!formValues[field] || formValues[field].trim() === ''\<close>\<close>

definition missing_or_blank :: "(string \<rightharpoonup> string) \<Rightarrow> string \<Rightarrow> bool" where
  "missing_or_blank formValues field =
     (case formValues field of None \<Rightarrow> True | Some v \<Rightarrow> v = [] \<or> js_trim v = [])"

fun check_required :: "(string \<rightharpoonup> string) \<Rightarrow> string list \<Rightarrow> bool \<times> form \<Rightarrow> bool \<times> form" where
  "check_required formValues [] (isValid, s) = (isValid, s)"
| "check_required formValues (field # fs) (isValid, s) =
     (if missing_or_blank formValues field
      then check_required formValues fs (False, showFieldError field ''This field is required'' s)
      else check_required formValues fs (isValid, s))"

text \<open>\<open>formValues.email && !isValidEmail(formValues.email)\<close>\<close>

definition email_rejected :: "(string \<rightharpoonup> string) \<Rightarrow> bool" where
  "email_rejected formValues =
     (case formValues ''email'' of
        None \<Rightarrow> False
      | Some email \<Rightarrow> email \<noteq> [] \<and> \<not> isValidEmail email)"

definition validateContactForm :: "(string \<rightharpoonup> string) \<Rightarrow> form \<Rightarrow> bool \<times> form" where
  "validateContactForm formValues s =
     (let (isValid, s1) = check_required formValues requiredFields (True, s)
      in if email_rejected formValues
         then (False, showFieldError ''email'' ''Please enter a valid email address'' s1)
         else (isValid, s1))"

definition showFormLoading :: "bool \<Rightarrow> form \<Rightarrow> form" where
  "showFormLoading isLoading s =
     (case submitButton s of
        None \<Rightarrow> s
      | Some b \<Rightarrow>
          if isLoading
          then s\<lparr>submitButton :=
                  Some \<lparr>btn_disabled = True, btn_text = ''Sending...'', btn_loading = True\<rparr>\<rparr>
          else s\<lparr>submitButton :=
                  Some \<lparr>btn_disabled = False, btn_text = ''Send Message'', btn_loading = False\<rparr>\<rparr>)"

text \<open>\<open>showFormSuccess\<close> and \<open>showFormError\<close> take away the messages shown and add theirs.\<close>

definition showFormSuccess :: "form \<Rightarrow> form" where
  "showFormSuccess s = s\<lparr>form_messages := [FormSuccess]\<rparr>"

definition showFormError :: "string \<Rightarrow> form \<Rightarrow> form" where
  "showFormError message s = s\<lparr>form_messages := [FormError message]\<rparr>"

definition form_reset :: "form \<Rightarrow> form" where
  "form_reset s = s\<lparr>control_values := default_values s\<rparr>"

text \<open>An entry of the \<open>errors\<close> array in the answer of the form-handling service.\<close>

record server_error =
  se_field :: "string option"
  se_message :: string

fun show_server_errors :: "server_error list \<Rightarrow> form \<Rightarrow> form" where
  "show_server_errors [] s = s"
| "show_server_errors (error # es) s =
     show_server_errors es
       (case se_field error of
          None \<Rightarrow> s
        | Some f \<Rightarrow> if f = [] then s else showFieldError f (se_message error) s)"

definition send_error_text :: string where
  "send_error_text =
     ''There was an error sending your message. Please try again or contact me directly via email.''"

text \<open>
  The \<open>try\<close> block of \<open>handleContactFormSubmit\<close> once the request has settled with \<open>r\<close>:
  it returns, or throws with the form as it is at the throw.
\<close>

definition submit_try :: "server_error fetch_result \<Rightarrow> form \<Rightarrow> form outcome" where
  "submit_try r s =
     (case r of
        NetworkError \<Rightarrow> Threw TypeError s
      | Response status b \<Rightarrow>
          if response_ok status then Returned (form_reset (showFormSuccess s))
          else (case b of
                  NotJSON \<Rightarrow> Threw SyntaxError s
                | Parsed data \<Rightarrow>
                    (case js_get data ''errors'' of
                       Inl e \<Rightarrow> Threw e s
                     | Inr errors \<Rightarrow>
                         if js_truthy errors
                         then (case errors of
                                 JArr es \<Rightarrow> Returned (show_server_errors es s)
                               | _ \<Rightarrow> Threw TypeError s)
                         else Threw SendFailed s)))"

text \<open>
  \<open>handleContactFormSubmit\<close> of the page script, run until the submission has settled
  with \<open>r\<close>. \<open>formValues\<close> are the entries of the form's \<open>FormData\<close>.
\<close>

definition handleContactFormSubmit ::
  "server_error fetch_result \<Rightarrow> (string \<rightharpoonup> string) \<Rightarrow> form \<Rightarrow> form" where
  "handleContactFormSubmit r formValues s =
     (let (isValid, s1) = validateContactForm formValues s
      in if \<not> isValid then s1
         else let s2 = showFormLoading True s1;
                  s3 = s2\<lparr>form_requests := form_requests s2 @ [(form_action s2, ''POST'')]\<rparr>;
                  s4 = (case submit_try r s3 of
                          Returned s' \<Rightarrow> s'
                        | Threw e s' \<Rightarrow> showFormError send_error_text s')
              in showFormLoading False s4)"


definition run_form_task :: "form_task \<Rightarrow> form \<Rightarrow> form" where
  "run_form_task t s =
     (case t of
        SubmitDone \<Rightarrow>
          (let s1 = showFormLoading False s;
               s2 = s1\<lparr>form_messages := form_messages s1 @ [FormSuccess]\<rparr>
           in form_reset s2))"

section \<open>The blog detail page: markdown to HTML\<close>

text \<open>
  \<open>convertMarkdownToHTML\<close> is a chain of twelve \<open>String.prototype.replace\<close> calls. Each
  regular expression is modelled by the scan it stands for: the matches are found from left
  to right, the search goes on behind a match, and replaced text is never read again.

  A line terminator is what \<open>.\<close> does not match and what \<open>^\<close> and \<open>$\<close> of a multi-line
  expression see: line feed and carriage return, among the code units below 256.
\<close>

definition is_line_terminator :: "char \<Rightarrow> bool" where
  "is_line_terminator c \<longleftrightarrow> c = CHR 0x0A \<or> c = CHR 0x0D"

definition is_digit :: "char \<Rightarrow> bool" where
  "is_digit c \<longleftrightarrow> 48 \<le> (of_char c :: nat) \<and> (of_char c :: nat) \<le> 57"

text \<open>\<open>\w\<close>: a letter of the Latin alphabet, a digit or the underscore.\<close>

definition is_word_char :: "char \<Rightarrow> bool" where
  "is_word_char c \<longleftrightarrow>
     is_digit c \<or> c = CHR ''_'' \<or>
     (65 \<le> (of_char c :: nat) \<and> (of_char c :: nat) \<le> 90) \<or>
     (97 \<le> (of_char c :: nat) \<and> (of_char c :: nat) \<le> 122)"

text \<open>
  An expression of the form \<open>^marker(.*$)\<close> with the flags \<open>g\<close> and \<open>m\<close> can match at the start
  of a line only and then takes the line to its end, so the replacement works line by
  line. \<open>replace_lines f acc s\<close> applies \<open>f\<close> to every line of \<open>s\<close> and keeps the
  terminators; \<open>acc\<close> holds the line read so far, reversed.
\<close>

fun replace_lines :: "(string \<Rightarrow> string) \<Rightarrow> string \<Rightarrow> string \<Rightarrow> string" where
  "replace_lines f acc [] = f (rev acc)"
| "replace_lines f acc (c # cs) =
     (if is_line_terminator c then f (rev acc) @ c # replace_lines f [] cs
      else replace_lines f (c # acc) cs)"

definition wrap_line :: "string \<Rightarrow> string \<Rightarrow> string \<Rightarrow> string \<Rightarrow> string" where
  "wrap_line marker tag_open tag_close l =
     (if take (length marker) l = marker
      then tag_open @ drop (length marker) l @ tag_close else l)"

text \<open>\<open>.replace(/^### (.*$)/gim, '<h3>$1</h3>')\<close> and the two after it.\<close>

definition replace_h3 :: "string \<Rightarrow> string" where
  "replace_h3 = replace_lines (wrap_line ''### '' ''<h3>'' ''</h3>'') []"

definition replace_h2 :: "string \<Rightarrow> string" where
  "replace_h2 = replace_lines (wrap_line ''## '' ''<h2>'' ''</h2>'') []"

definition replace_h1 :: "string \<Rightarrow> string" where
  "replace_h1 = replace_lines (wrap_line ''# '' ''<h1>'' ''</h1>'') []"

text \<open>
  The lazy group in front of a closing delimiter: \<open>find_close d multi s\<close> looks for the first
  place in \<open>s\<close> where \<open>d\<close> stands, and gives the text before it and the text after it. With
  \<open>.*?\<close> (\<open>multi\<close> is false) the text before must hold no line terminator; with
  \<open>[\s\S]*?\<close> it may hold anything.
\<close>

fun find_close :: "string \<Rightarrow> bool \<Rightarrow> string \<Rightarrow> (string \<times> string) option" where
  "find_close d multi [] = None"
| "find_close d multi (c # cs) =
     (if take (length d) (c # cs) = d then Some ([], drop (length d) (c # cs))
      else if \<not> multi \<and> is_line_terminator c then None
      else map_option (\<lambda>(a, r). (c # a, r)) (find_close d multi cs))"

lemma find_close_length: "find_close d multi s = Some (a, r) \<Longrightarrow> length r \<le> length s"
  by (induction s arbitrary: a r) (auto split: if_splits)

lemma find_close_shorter:
  "find_close d multi (drop (length d) (c # cs)) = Some (a, r) \<Longrightarrow> d \<noteq> [] \<Longrightarrow>
     length r < Suc (length cs)"
  by (drule find_close_length) (cases d; simp)

lemma fence_shorter:
  "find_close d multi (tl (dropWhile P (drop 2 cs))) = Some (a, r) \<Longrightarrow>
     length r < Suc (length cs)"
proof -
  assume "find_close d multi (tl (dropWhile P (drop 2 cs))) = Some (a, r)"
  then have "length r \<le> length (tl (dropWhile P (drop 2 cs)))"
    by (rule find_close_length)
  also have "\<dots> \<le> length (dropWhile P (drop 2 cs))" by simp
  also have "\<dots> \<le> length (drop 2 cs)" by (rule length_dropWhile_le)
  finally show ?thesis by simp
qed

lemma link_shorter:
  "length (dropWhile P (drop 2 (dropWhile Q cs))) - Suc 0 < Suc (length cs)"
proof -
  have "length (dropWhile P (drop 2 (dropWhile Q cs))) \<le> length (drop 2 (dropWhile Q cs))"
    by (rule length_dropWhile_le)
  also have "\<dots> \<le> length (dropWhile Q cs)" by simp
  also have "\<dots> \<le> length cs" by (rule length_dropWhile_le)
  finally show ?thesis by simp
qed

text \<open>
  \<open>.replace(/D(.*?)D/g, 'open$1close')\<close> for a delimiter \<open>D\<close>: \<open>**\<close> for bold, \<open>*\<close> for
  italic, a backtick for inline code. Where the delimiter stands and no closing one
  follows on the line, the search moves on by one character.
\<close>

function replace_delimited :: "string \<Rightarrow> string \<Rightarrow> string \<Rightarrow> string \<Rightarrow> string" where
  "replace_delimited d tag_open tag_close [] = []"
| "replace_delimited d tag_open tag_close (c # cs) =
     (if d \<noteq> [] \<and> take (length d) (c # cs) = d
      then (case find_close d False (drop (length d) (c # cs)) of
              Some (inner, rest) \<Rightarrow>
                tag_open @ inner @ tag_close @ replace_delimited d tag_open tag_close rest
            | None \<Rightarrow> c # replace_delimited d tag_open tag_close cs)
      else c # replace_delimited d tag_open tag_close cs)"
  by pat_completeness auto
termination
  by (relation "measure (\<lambda>(d, tag_open, tag_close, s). length s)")
    (auto dest: find_close_shorter)

definition replace_bold :: "string \<Rightarrow> string" where
  "replace_bold = replace_delimited ''**'' ''<strong>'' ''</strong>''"

definition replace_italic :: "string \<Rightarrow> string" where
  "replace_italic = replace_delimited ''*'' ''<em>'' ''</em>''"

definition replace_inline_code :: "string \<Rightarrow> string" where
  "replace_inline_code = replace_delimited ''`'' ''<code>'' ''</code>''"

text \<open>
  \<open>.replace(/```(\w+)?\n([\s\S]*?)```/g, '<pre><code class="language-$1">$2</code></pre>')\<close>:
  three backticks, the longest run of word characters (it may be empty, and then \<open>$1\<close> is
  empty), a line feed, and the text up to the next three backticks.
\<close>

definition code_block :: "string \<Rightarrow> string \<Rightarrow> string" where
  "code_block lang body =
     ''<pre><code class=\"language-'' @ lang @ ''\">'' @ body @ ''</code></pre>''"

function replace_fences :: "string \<Rightarrow> string" where
  "replace_fences [] = []"
| "replace_fences (c # cs) =
     (if take 3 (c # cs) = ''```''
      then (let after = drop 3 (c # cs);
                lang = takeWhile is_word_char after;
                r = dropWhile is_word_char after
            in if r \<noteq> [] \<and> hd r = CHR 0x0A
               then (case find_close ''```'' True (tl r) of
                       Some (body, rest) \<Rightarrow> code_block lang body @ replace_fences rest
                     | None \<Rightarrow> c # replace_fences cs)
               else c # replace_fences cs)
      else c # replace_fences cs)"
  by pat_completeness auto
termination
  by (relation "measure length") (auto dest: fence_shorter)

text \<open>\<open>.replace(/\n\n/g, '</p><p>')\<close>\<close>

fun replace_blank_lines :: "string \<Rightarrow> string" where
  "replace_blank_lines (a # b # cs) =
     (if a = CHR 0x0A \<and> b = CHR 0x0A then ''</p><p>'' @ replace_blank_lines cs
      else a # replace_blank_lines (b # cs))"
| "replace_blank_lines cs = cs"

text \<open>\<open>.replace(/^\- (.*$)/gim, '<li>$1</li>')\<close>\<close>

definition replace_bullets :: "string \<Rightarrow> string" where
  "replace_bullets = replace_lines (wrap_line ''- '' ''<li>'' ''</li>'') []"

text \<open>
  \<open>.replace(/(<li>.*<\/li>)/s, '<ul>$1</ul>')\<close>, without the flag \<open>g\<close> and with a greedy
  \<open>.*\<close> that matches line terminators too: the one match runs from the first \<open><li>\<close> to
  the last \<open></li>\<close> behind it.
\<close>

definition split_last :: "string \<Rightarrow> string \<Rightarrow> (string \<times> string) option" where
  "split_last d s =
     (case find_close (rev d) True (rev s) of
        None \<Rightarrow> None
      | Some (a, r) \<Rightarrow> Some (rev r, rev a))"

definition wrap_list :: "string \<Rightarrow> string" where
  "wrap_list s =
     (case find_close ''<li>'' True s of
        None \<Rightarrow> s
      | Some (before, after) \<Rightarrow>
          (case split_last ''</li>'' after of
             None \<Rightarrow> s
           | Some (items, behind) \<Rightarrow>
               before @ ''<ul><li>'' @ items @ ''</li></ul>'' @ behind))"

text \<open>\<open>.replace(/^\d+\. (.*$)/gim, '<li>$1</li>')\<close>: digits, a dot and a space at the start
  of a line.\<close>

definition numbered_line :: "string \<Rightarrow> string" where
  "numbered_line l =
     (let r = dropWhile is_digit l
      in if takeWhile is_digit l \<noteq> [] \<and> take 2 r = ''. ''
         then ''<li>'' @ drop 2 r @ ''</li>'' else l)"

definition replace_numbered :: "string \<Rightarrow> string" where
  "replace_numbered = replace_lines numbered_line []"

text \<open>
  \<open>.replace(/\[([^\]]+)\]\(([^)]+)\)/g, '<a href="$2" target="_blank" rel="noopener noreferrer">$1</a>')\<close>:
  an opening bracket, the longest run without a closing bracket (not empty), \<open>](\<close>, the
  longest run without a closing parenthesis (not empty), and the closing parenthesis.
\<close>

definition anchor :: "string \<Rightarrow> string \<Rightarrow> string" where
  "anchor url txt =
     ''<a href=\"'' @ url @ ''\" target=\"_blank\" rel=\"noopener noreferrer\">'' @ txt @ ''</a>''"

function replace_links :: "string \<Rightarrow> string" where
  "replace_links [] = []"
| "replace_links (c # cs) =
     (if c = CHR ''[''
      then (let txt = takeWhile (\<lambda>x. x \<noteq> CHR '']'') cs;
                r = dropWhile (\<lambda>x. x \<noteq> CHR '']'') cs;
                url = takeWhile (\<lambda>x. x \<noteq> CHR '')'') (drop 2 r);
                r2 = dropWhile (\<lambda>x. x \<noteq> CHR '')'') (drop 2 r)
            in if txt \<noteq> [] \<and> take 2 r = '']('' \<and> url \<noteq> [] \<and> r2 \<noteq> []
               then anchor url txt @ replace_links (tl r2)
               else c # replace_links cs)
      else c # replace_links cs)"
  by pat_completeness auto
termination
  by (relation "measure length") (auto intro: link_shorter)

definition convertMarkdownToHTML :: "string \<Rightarrow> string" where
  "convertMarkdownToHTML content =
     replace_links (replace_numbered (wrap_list (replace_bullets (replace_blank_lines
       (replace_inline_code (replace_fences (replace_italic (replace_bold
         (replace_h1 (replace_h2 (replace_h3 content)))))))))))"

text \<open>
  Plain text: no asterisk, backtick, opening bracket, \<open><\<close> or line terminator. A line
  starts a block when its first character is \<open>#\<close>, \<open>-\<close> or a digit.
\<close>

definition plain_text :: "string \<Rightarrow> bool" where
  "plain_text t \<longleftrightarrow>
     list_all (\<lambda>c. c \<noteq> CHR ''*'' \<and> c \<noteq> CHR 0x60 \<and> c \<noteq> CHR ''['' \<and> c \<noteq> CHR ''<'' \<and>
                   \<not> is_line_terminator c) t"

definition starts_block :: "string \<Rightarrow> bool" where
  "starts_block t \<longleftrightarrow> t \<noteq> [] \<and> (hd t = CHR ''#'' \<or> hd t = CHR ''-'' \<or> is_digit (hd t))"

section \<open>The blog detail page\<close>

text \<open>
  \<open>blog.id === blogId\<close>, where \<open>blogId\<close> is the string read from the URL: strict equality
  converts nothing, so a number is never equal to a string.
\<close>

fun strict_eq_string :: "idval \<Rightarrow> string \<Rightarrow> bool" where
  "strict_eq_string (IdStr t) s = (t = s)"
| "strict_eq_string (IdNum n) s = False"

text \<open>
  \<open>allBlogs.find(blog => blog.id === blogId) || null\<close>. The global \<open>allBlogs\<close> holds what
  \<open>response.json()\<close> returned; \<open>find\<close> is there to call on an array only. \<open>None\<close> is \<open>null\<close>.
\<close>

definition findBlogById :: "blog jsval \<Rightarrow> string \<Rightarrow> js_error + blog option" where
  "findBlogById all_blogs blogId =
     (case all_blogs of
        JArr bs \<Rightarrow> Inr (find (\<lambda>blog. strict_eq_string (b_id blog) blogId) bs)
      | _ \<Rightarrow> Inl TypeError)"

text \<open>
  The element \<open>#blog-content\<close> (taken to be in the page): untouched, the not-found message,
  an error message, or the article of a blog with its content converted to HTML. The
  loading screen is not modelled.
\<close>

datatype blog_view =
    NoContent
  | BlogNotFound
  | BlogErrorMessage string
  | BlogArticle blog string

record blog_detail =
  bd_allBlogs :: "blog jsval"
  bd_currentBlog :: "blog option"
  bd_content :: blog_view
  bd_title :: string
  bd_related :: "blog list"
  bd_related_hidden :: bool
  bd_requests :: "string list"

definition showErrorMessage :: "string \<Rightarrow> blog_detail \<Rightarrow> blog_detail" where
  "showErrorMessage message s = s\<lparr>bd_content := BlogErrorMessage message\<rparr>"

definition displayBlogContent :: "blog option \<Rightarrow> blog_detail \<Rightarrow> blog_detail" where
  "displayBlogContent blog s =
     (case blog of
        None \<Rightarrow> s\<lparr>bd_content := BlogNotFound\<rparr>
      | Some b \<Rightarrow>
          s\<lparr>bd_title := b_title b @ '' - Bhanuprakash Portfolio'',
            bd_content := BlogArticle b (convertMarkdownToHTML (b_fullContent b))\<rparr>)"

text \<open>\<open>loadBlogData\<close>, for the outcome of its fetch. Its log line reads \<open>allBlogs.length\<close>
  after the assignment, and throws on \<open>null\<close>.\<close>

definition loadBlogData :: "blog fetch_result \<Rightarrow> blog_detail \<Rightarrow> blog_detail" where
  "loadBlogData r s =
     (let s1 = s\<lparr>bd_requests := bd_requests s @ [blogsDataPath]\<rparr>;
          failed = showErrorMessage ''Failed to load blog data. Please try again later.''
      in case r of
           NetworkError \<Rightarrow> failed s1
         | Response status b \<Rightarrow>
             if \<not> response_ok status then failed s1
             else (case b of
                     NotJSON \<Rightarrow> failed s1
                   | Parsed v \<Rightarrow>
                       (let s2 = s1\<lparr>bd_allBlogs := v\<rparr>
                        in case js_get v ''length'' of Inl e \<Rightarrow> failed s2 | Inr _ \<Rightarrow> s2)))"

definition displayRelatedBlogs :: "blog \<Rightarrow> blog_detail \<Rightarrow> blog_detail" where
  "displayRelatedBlogs currentBlog s =
     (let relatedBlogs =
            take 3
              (filter (\<lambda>blog. b_category blog = b_category currentBlog \<or>
                         (\<exists>keyword\<in>set (b_keywords blog). keyword \<in> set (b_keywords currentBlog)))
                (filter (\<lambda>blog. b_id blog \<noteq> b_id currentBlog) (array_items (bd_allBlogs s))))
      in if relatedBlogs = [] then s\<lparr>bd_related_hidden := True\<rparr>
         else s\<lparr>bd_related := relatedBlogs\<rparr>)"

text \<open>
  \<open>initializeBlogDetail\<close>, for the value of the \<open>id\<close> parameter of the URL (\<open>None\<close> when the
  URL has none) and the outcome of the fetch.
\<close>

definition initializeBlogDetail ::
  "string option \<Rightarrow> blog fetch_result \<Rightarrow> blog_detail \<Rightarrow> blog_detail" where
  "initializeBlogDetail url_id r s =
     (let failed = showErrorMessage ''Failed to load blog content. Please try again.''
      in case url_id of
           None \<Rightarrow> failed s
         | Some blogId \<Rightarrow>
             if blogId = [] then failed s
             else (let s1 = loadBlogData r s
                   in case findBlogById (bd_allBlogs s1) blogId of
                        Inl e \<Rightarrow> failed s1
                      | Inr found \<Rightarrow>
                          (let s2 = displayBlogContent found (s1\<lparr>bd_currentBlog := found\<rparr>)
                           in case found of
                                None \<Rightarrow> s2
                              | Some b \<Rightarrow> displayRelatedBlogs b s2)))"

text \<open>\<open>navigateToBlogDetail(blogId)\<close> of a card: the template literal turns the id into
  text.\<close>

fun js_string_of_id :: "idval \<Rightarrow> string" where
  "js_string_of_id (IdNum n) = string_of_int n"
| "js_string_of_id (IdStr s) = s"

section \<open>From the overview page to the project detail page\<close>


















subsection \<open>Example values\<close>

text \<open>The record \<open>testProjectCard\<close> renders.\<close>

definition testProject :: project where
  "testProject =
     \<lparr> p_id = IdNum 999,
       p_title = ''Test Project'',
       p_description = ''This is a test project to verify the View More Details button is working correctly. This description is intentionally long to test the truncation functionality.'',
       p_technologies = [''JavaScript'', ''HTML'', ''CSS'', ''Testing'', ''Debug''],
       p_image = None \<rparr>"

definition empty_page :: page where
  "empty_page =
     \<lparr> projectsGrid = Some [], allProjects = None, next_id = 0, clock = 0, timers = [],
       requests = [] \<rparr>"


definition demo_blog :: "idval \<Rightarrow> blog" where
  "demo_blog i =
     \<lparr> b_id = i, b_title = ''Post'', b_shortDescription = ''A post'', b_keywords = [''ml''],
       b_category = ''notes'', b_publishDate = ''2024-01-01'', b_readTime = ''5 min read'',
       b_image = None, b_fullContent = ''# Post'', b_author = ''Ann'', b_tags = [] \<rparr>"

definition contact_form :: form where
  "contact_form =
     \<lparr> form_action = ''https://formspree.io/f/xdkokykj'',
       named_elements = [''name'', ''email'', ''subject'', ''message''],
       field_errors = Map.empty,
       submitButton =
         Some \<lparr>btn_disabled = False, btn_text = ''Send Message'', btn_loading = False\<rparr>,
       form_messages = [],
       control_values = Map.empty,
       default_values = Map.empty,
       form_requests = [],
       form_timers = [] \<rparr>"


definition good_values :: "string \<rightharpoonup> string" where
  "good_values =
     [''name'' \<mapsto> ''Ann'', ''email'' \<mapsto> ''ann@example.org'', ''subject'' \<mapsto> ''Hello'',
      ''message'' \<mapsto> ''Good morning'']"

definition empty_blog_detail :: blog_detail where
  "empty_blog_detail =
     \<lparr> bd_allBlogs = JArr [], bd_currentBlog = None, bd_content = NoContent, bd_title = [],
       bd_related = [], bd_related_hidden = False, bd_requests = [] \<rparr>"


definition demo_project :: "int \<Rightarrow> project" where
  "demo_project i =
     \<lparr> p_id = IdNum i, p_title = ''Demo'', p_description = ''A demo project'',
       p_technologies = [''HTML'', ''CSS''], p_image = None \<rparr>"

definition five_projects :: "project list" where
  "five_projects = map demo_project [1, 2, 3, 4, 5]"

section \<open>Properties\<close>

lemma string_of_nat_digit: "n < 10 \<Longrightarrow> string_of_nat n = [digit_char n]"
  by (simp add: string_of_nat.simps)

subsection \<open>The grid after rendering and after expanding\<close>

lemma cards_for_simps [simp]:
  "cards_for k [] = []"
  "cards_for k (p # ps) = ProjectCard (createProjectCard p k) # cards_for (Suc k) ps"
  by (simp_all add: cards_for_def)

lemma length_cards_for [simp]: "length (cards_for k ps) = length ps"
  by (simp add: cards_for_def)

lemma append_cards_grid:
  "projectsGrid s = Some g \<Longrightarrow>
     projectsGrid (append_cards k ps s) = Some (g @ enumerate (next_id s) (cards_for k ps))"
proof (induction k ps s arbitrary: g rule: append_cards.induct)
  case (1 k s)
  then show ?case by simp
next
  case (2 k project ps s)
  have "projectsGrid (appendChild (ProjectCard (createProjectCard project k)) s)
      = Some (g @ [(next_id s, ProjectCard (createProjectCard project k))])"
    using 2(2) by (simp add: appendChild_def)
  from 2(1)[OF this] show ?case
    by (simp add: appendChild_def)
qed

lemma append_cards_next_id [simp]:
  "next_id (append_cards k ps s) = next_id s + length ps"
  by (induction k ps s rule: append_cards.induct) (simp_all add: appendChild_def)

lemma append_cards_None:
  "projectsGrid s = None \<Longrightarrow> projectsGrid (append_cards k ps s) = None"
  by (induction k ps s rule: append_cards.induct) (simp_all add: appendChild_def)

lemma nodes_append_cards:
  "projectsGrid s = Some g \<Longrightarrow> nodes (append_cards k ps s) = map snd g @ cards_for k ps"
  using append_cards_grid[of s g k ps] by (simp add: nodes_def)

lemma displayProjects_grid:
  assumes "projectsGrid s = Some g"
  shows "projectsGrid (displayProjects ps s) =
     Some (enumerate (next_id s) (cards_for 0 (take 3 ps) @
        (if length ps > 3 then [ViewMoreContainer (view_more_label (length ps)) False] else [])))"
proof -
  let ?s1 = "s\<lparr>projectsGrid := Some [], allProjects := Some ps\<rparr>"
  have g: "projectsGrid (append_cards 0 (take 3 ps) ?s1) =
      Some (enumerate (next_id s) (cards_for 0 (take 3 ps)))"
    using append_cards_grid[of ?s1 "[]" 0 "take 3 ps"] by simp
  show ?thesis
  proof (cases "length ps > 3")
    case True
    then show ?thesis
      using assms g by (simp add: displayProjects_def Let_def appendChild_def enumerate_append_eq min_def)
  next
    case False
    then have "take 3 ps = ps" by simp
    with False show ?thesis
      using assms g by (simp add: displayProjects_def Let_def)
  qed
qed

lemma displayProjects_frame:
  assumes "projectsGrid s = Some g"
  shows "allProjects (displayProjects ps s) = Some ps"
    and "timers (displayProjects ps s) = timers s"
    and "requests (displayProjects ps s) = requests s"
    and "clock (displayProjects ps s) = clock s"
  using assms by (simp_all add: displayProjects_def Let_def appendChild_def)

lemma find_append_not:
  "\<forall>x\<in>set xs. \<not> P x \<Longrightarrow> find P (xs @ ys) = find P ys"
  by (induction xs) auto

lemma cards_for_is_card: "x \<in> set (cards_for k ps) \<Longrightarrow> is_card x \<and> \<not> is_container x"
  by (auto simp: cards_for_def is_card_def is_container_def)

lemma nth_cards_for:
  "i < length ps \<Longrightarrow> cards_for k ps ! i = ProjectCard (createProjectCard (ps ! i) (k + i))"
  by (simp add: cards_for_def nth_enumerate_eq)

lemma enumerate_cards_not_container:
  "\<forall>e\<in>set (enumerate n (cards_for k ps)). \<not> is_container (snd e)"
  by (auto simp: in_set_enumerate_eq nth_cards_for is_container_def)

lemma filter_cards_enumerate:
  "filter (\<lambda>e. is_card (snd e)) (enumerate n (cards_for k ps)) = enumerate n (cards_for k ps)"
  by (rule filter_True) (auto simp: in_set_enumerate_eq nth_cards_for is_card_def)

lemma is_card_simps [simp]:
  "is_card (ProjectCard c)" "\<not> is_card (ViewMoreContainer t d)"
  "\<not> is_card ProjectsLoading" "\<not> is_card ProjectsError"
  by (simp_all add: is_card_def)

lemma is_container_simps [simp]:
  "\<not> is_container (ProjectCard c)" "is_container (ViewMoreContainer t d)"
  "\<not> is_container ProjectsLoading" "\<not> is_container ProjectsError"
  by (simp_all add: is_container_def)

lemma map_upd_enumerate:
  "n + length xs \<le> i \<Longrightarrow> map (\<lambda>e. if fst e = i then (i, v) else e) (enumerate n xs) = enumerate n xs"
  by (rule map_idI) (auto simp: in_set_enumerate_eq)

lemma filter_neq_enumerate:
  "n + length xs \<le> i \<Longrightarrow> filter (\<lambda>e. fst e \<noteq> i) (enumerate n xs) = enumerate n xs"
  by (rule filter_True) (auto simp: in_set_enumerate_eq)

lemma expand_after_display:
  assumes g: "projectsGrid s = Some g" and t: "timers s = []" and n: "length ps > 3"
  shows "\<exists>s'. toggleProjectsView (displayProjects ps s) = Inr s' \<and>
     nodes (run_timers s') =
       cards_for 0 (take 3 ps) @ cards_for 3 (drop 3 ps) @ [ViewMoreContainer show_less_label False]"
proof -
  let ?c3 = "cards_for 0 (take 3 ps)"
  let ?n = "next_id s"
  let ?vm = "ViewMoreContainer (view_more_label (length ps)) False"
  let ?s1 = "displayProjects ps s"
  have l3: "length ?c3 = 3" using n by simp
  have g1: "projectsGrid ?s1 = Some (enumerate ?n ?c3 @ [(?n + 3, ?vm)])"
    using displayProjects_grid[OF g, of ps] n l3 by (simp add: enumerate_append_eq)
  have a1: "allProjects ?s1 = Some ps" and t1: "timers ?s1 = []"
    using displayProjects_frame[OF g, of ps] t by simp_all
  have n1: "next_id ?s1 = ?n + 4"
    using g n by (simp add: displayProjects_def Let_def appendChild_def)
  have fc: "find_container ?s1 = Some (?n + 3, ?vm)"
    using g1 enumerate_cards_not_container[of ?n 0 "take 3 ps"]
    by (simp add: find_container_def find_append_not)
  have ci: "length (card_ids ?s1) = 3"
    using g1 l3 by (simp add: card_ids_def filter_cards_enumerate)
  let ?s2 = "setTimeout (ExpandTimeout (Some (?n + 3))) 500 (set_button (?n + 3) loading_label True ?s1)"
  have tg: "toggleProjectsView ?s1 = Inr ?s2"
    using g1 ci a1 fc by (simp add: toggleProjectsView_def expandProjectsView_def)
  have g2: "projectsGrid ?s2 = Some (enumerate ?n ?c3 @ [(?n + 3, ViewMoreContainer loading_label True)])"
    using g1 l3 by (simp add: setTimeout_def set_button_def map_upd_enumerate)
  have t2: "timers ?s2 = [(clock ?s1 + 500, ExpandTimeout (Some (?n + 3)))]"
    using t1 by (simp add: setTimeout_def set_button_def)
  have a2: "allProjects ?s2 = Some ps" using a1 by (simp add: setTimeout_def set_button_def)
  have n2: "next_id ?s2 = ?n + 4" using n1 by (simp add: setTimeout_def set_button_def)
  let ?s3 = "fire_next ?s2"
  let ?rest = "cards_for 3 (drop 3 ps)"
  have g3: "projectsGrid ?s3 = Some (enumerate ?n ?c3 @ enumerate (?n + 4) ?rest)"
    using g2 t2 a2 n2 l3
    by (simp add: fire_next_def run_task_def remove_element_def Let_def setTimeout_def
        append_cards_grid filter_neq_enumerate)
  have t3: "\<exists>d. timers ?s3 = [(d, AddShowLess)]"
    using g2 t2 a2
    by (simp add: fire_next_def run_task_def remove_element_def Let_def setTimeout_def)
  then obtain d where t3': "timers ?s3 = [(d, AddShowLess)]" by blast
  let ?s4 = "fire_next ?s3"
  have g4: "nodes ?s4 = ?c3 @ ?rest @ [ViewMoreContainer show_less_label False]"
    using g3 t3' by (simp add: fire_next_def run_task_def appendChild_def nodes_def)
  have t4: "timers ?s4 = []"
    using t3' by (simp add: fire_next_def run_task_def appendChild_def)
  have "run_timers ?s2 = ?s4"
    using t2 t3' t4 by (simp add: run_timers.simps[of ?s2] run_timers.simps[of ?s3] run_timers.simps[of ?s4])
  with tg g4 show ?thesis by simp
qed

subsection \<open>What the toggle and the timers leave alone\<close>

lemma run_task_frame [simp]:
  "allProjects (run_task t s) = allProjects s"
  "requests (run_task t s) = requests s"
  by (cases t; simp add: run_task_def setTimeout_def appendChild_def remove_element_def Let_def
      split: option.splits)+

lemma fire_next_frame [simp]:
  "allProjects (fire_next s) = allProjects s"
  "requests (fire_next s) = requests s"
  by (simp_all add: fire_next_def split: option.splits prod.splits)

lemma run_timers_frame [simp]:
  "allProjects (run_timers s) = allProjects s"
  "requests (run_timers s) = requests s"
proof (induction s rule: run_timers.induct)
  case (1 s)
  { case 1 show ?case using "1.IH"(1) by (cases "timers s = []") (simp_all add: run_timers.simps[of s] split: option.splits)
  next
    case 2 show ?case using "1.IH"(2) by (cases "timers s = []") (simp_all add: run_timers.simps[of s] split: option.splits) }
qed

lemma schedule_fade_frame [simp]:
  "allProjects (schedule_fade k cs s) = allProjects s"
  "requests (schedule_fade k cs s) = requests s"
  "projectsGrid (schedule_fade k cs s) = projectsGrid s"
  by (induction k cs s rule: schedule_fade.induct) (simp_all add: setTimeout_def)

lemma contract_frame [simp]:
  "allProjects (contractProjectsView s) = allProjects s"
  "requests (contractProjectsView s) = requests s"
  "projectsGrid (contractProjectsView s) = projectsGrid s"
  by (simp_all add: contractProjectsView_def Let_def setTimeout_def split: option.splits prod.splits)

lemma expand_frame:
  "expandProjectsView s = Inr s' \<Longrightarrow> allProjects s' = allProjects s \<and> requests s' = requests s"
  by (auto simp: expandProjectsView_def setTimeout_def set_button_def split: option.splits prod.splits)

lemma toggle_frame:
  "toggleProjectsView s = Inr s' \<Longrightarrow> allProjects s' = allProjects s \<and> requests s' = requests s"
  by (auto simp: toggleProjectsView_def dest: expand_frame split: option.splits if_splits)

lemma click_toggle_frame [simp]:
  "allProjects (click_toggle s) = allProjects s"
  "requests (click_toggle s) = requests s"
  by (auto simp: click_toggle_def dest: toggle_frame split: option.splits prod.splits node.splits bool.splits sum.splits)

lemma run_events_frame [simp]:
  "allProjects (run_events es s) = allProjects s"
  "requests (run_events es s) = requests s"
  by (induction es s rule: run_events.induct) simp_all

subsection \<open>The claims about the project cards\<close>

text \<open>
  C8. For every project record, the card shows the first 120 characters of the description
  followed by \<open>...\<close> exactly when the description is longer than 120 characters, and the
  whole description otherwise; it shows the first four technologies (all of them when there
  are at most four), and a \<open>+N more\<close> tag with \<open>N = technologies.length - 4\<close> exactly when
  there are more than four.
\<close>

theorem createProjectCard_truncates:
  "(length (p_description p) > 120 \<longrightarrow>
      card_description (createProjectCard p i) = take 120 (p_description p) @ ''...'') \<and>
   (length (p_description p) \<le> 120 \<longrightarrow>
      card_description (createProjectCard p i) = p_description p) \<and>
   card_tech (createProjectCard p i) = take 4 (p_technologies p) \<and>
   length (card_tech (createProjectCard p i)) = min 4 (length (p_technologies p)) \<and>
   (length (p_technologies p) > 4 \<longrightarrow>
      card_more_tech (createProjectCard p i) =
        Some (''+'' @ string_of_nat (length (p_technologies p) - 4) @ '' more'')) \<and>
   (length (p_technologies p) \<le> 4 \<longrightarrow> card_more_tech (createProjectCard p i) = None)"
  by (simp add: createProjectCard_def shortDescription_def displayTechnologies_def
      hasMoreTech_def)

theorem createProjectCard_truncates_witness:
  "length (p_description testProject) > 120 \<and> length (p_technologies testProject) > 4 \<and>
   card_description (createProjectCard testProject 0) =
     ''This is a test project to verify the View More Details button is working correctly. This description is intentionally lo...'' \<and>
   card_tech (createProjectCard testProject 0) = [''JavaScript'', ''HTML'', ''CSS'', ''Testing''] \<and>
   card_more_tech (createProjectCard testProject 0) = Some ''+1 more'' \<and>
   length (p_description (demo_project 1)) \<le> 120 \<and>
   length (p_technologies (demo_project 1)) \<le> 4 \<and>
   card_description (createProjectCard (demo_project 1) 0) = ''A demo project'' \<and>
   card_tech (createProjectCard (demo_project 1) 0) = [''HTML'', ''CSS''] \<and>
   card_more_tech (createProjectCard (demo_project 1) 0) = None"
proof -
  have t: "length (p_description testProject) > 120" "length (p_technologies testProject) > 4"
    by (simp_all add: testProject_def)
  have d: "length (p_description (demo_project 1)) \<le> 120"
    "length (p_technologies (demo_project 1)) \<le> 4"
    by (simp_all add: demo_project_def)
  have k: "take 120 (p_description testProject) @ ''...'' =
    ''This is a test project to verify the View More Details button is working correctly. This description is intentionally lo...''"
    by (simp add: testProject_def)
  have m: "string_of_nat (length (p_technologies testProject) - 4) = ''1''"
    by (simp add: testProject_def string_of_nat_digit digit_char_def)
  have p: "take 4 (p_technologies testProject) = [''JavaScript'', ''HTML'', ''CSS'', ''Testing'']"
    "take 4 (p_technologies (demo_project 1)) = [''HTML'', ''CSS'']"
    "p_description (demo_project 1) = ''A demo project''"
    by (simp_all add: testProject_def demo_project_def)
  from createProjectCard_truncates[of testProject 0] createProjectCard_truncates[of "demo_project 1" 0]
  show ?thesis using t d k m p by simp
qed

text \<open>
  C1. When the grid exists, \<open>displayProjects\<close> renders a card for each of the first
  \<open>min(n, 3)\<close> projects of an array of length \<open>n\<close>, and nothing else; when \<open>n > 3\<close> it adds
  the view-more control labelled \<open>View More Projects (n - 3 more)\<close>. A click on that
  control, on a page with no other timer pending, runs \<open>expandProjectsView\<close>, and once its
  timers have fired the grid holds the first three cards, then a card for each of the
  remaining \<open>n - 3\<close> records of the cached array in their order, then the show-less
  control: \<open>n\<close> cards in all.
\<close>

theorem displayProjects_then_expand:
  assumes "projectsGrid s \<noteq> None" and "timers s = []"
  shows "nodes (displayProjects ps s) =
           cards_for 0 (take 3 ps) @
           (if length ps > 3 then [ViewMoreContainer (view_more_label (length ps)) False] else []) \<and>
         length (filter is_card (nodes (displayProjects ps s))) = min (length ps) 3 \<and>
         (length ps > 3 \<longrightarrow>
            view_more_label (length ps) =
              ''View More Projects ('' @ string_of_nat (length ps - 3) @ '' more)'' \<and>
            (\<exists>s'. toggleProjectsView (displayProjects ps s) = Inr s' \<and>
                  click_toggle (displayProjects ps s) = s' \<and>
                  allProjects s' = Some ps \<and>
                  nodes (run_timers s') =
                    cards_for 0 (take 3 ps) @ cards_for 3 (drop 3 ps) @
                    [ViewMoreContainer show_less_label False] \<and>
                  length (filter is_card (nodes (run_timers s'))) = length ps))"
proof -
  from assms(1) obtain g where g: "projectsGrid s = Some g" by auto
  let ?vm = "ViewMoreContainer (view_more_label (length ps)) False"
  have n1: "nodes (displayProjects ps s) =
      cards_for 0 (take 3 ps) @ (if length ps > 3 then [?vm] else [])"
    using displayProjects_grid[OF g, of ps] by (simp add: nodes_def)
  have fc: "filter is_card (cards_for k qs) = cards_for k qs" for k qs
    by (rule filter_True) (auto simp: in_set_conv_nth nth_cards_for)
  have n2: "length (filter is_card (nodes (displayProjects ps s))) = min (length ps) 3"
    by (simp add: n1 fc)
  have n3: "length ps > 3 \<Longrightarrow> view_more_label (length ps) =
      ''View More Projects ('' @ string_of_nat (length ps - 3) @ '' more)''"
    by (simp add: view_more_label_def js_count_def string_of_int_def nat_diff_distrib')
  have n4: "\<exists>s'. toggleProjectsView (displayProjects ps s) = Inr s' \<and>
      click_toggle (displayProjects ps s) = s' \<and> allProjects s' = Some ps \<and>
      nodes (run_timers s') =
        cards_for 0 (take 3 ps) @ cards_for 3 (drop 3 ps) @
        [ViewMoreContainer show_less_label False] \<and>
      length (filter is_card (nodes (run_timers s'))) = length ps" if n: "length ps > 3"
  proof -
    from expand_after_display[OF g assms(2) n] obtain s' where
      t: "toggleProjectsView (displayProjects ps s) = Inr s'" and
      r: "nodes (run_timers s') = cards_for 0 (take 3 ps) @ cards_for 3 (drop 3 ps) @
            [ViewMoreContainer show_less_label False]"
      by blast
    have "find_container (displayProjects ps s) = Some (next_id s + length (take 3 ps), ?vm)"
      using displayProjects_grid[OF g, of ps] n enumerate_cards_not_container[of "next_id s" 0 "take 3 ps"]
      by (simp add: find_container_def enumerate_append_eq find_append_not)
    then have c: "click_toggle (displayProjects ps s) = s'"
      using t by (simp add: click_toggle_def)
    have a: "allProjects s' = Some ps"
      using toggle_frame[OF t] displayProjects_frame(1)[OF g, of ps] by simp
    have "length (filter is_card (nodes (run_timers s'))) = length ps"
      using n by (simp add: r fc)
    with t c a r show ?thesis by blast
  qed
  from n1 n2 n3 n4 show ?thesis by blast
qed

theorem displayProjects_then_expand_witness:
  "projectsGrid empty_page \<noteq> None \<and> timers empty_page = [] \<and> length five_projects = 5 \<and>
   length (filter is_card (nodes (displayProjects five_projects empty_page))) = 3 \<and>
   last (nodes (displayProjects five_projects empty_page)) =
     ViewMoreContainer ''View More Projects (2 more)'' False \<and>
   length (filter is_card
     (nodes (run_timers (click_toggle (displayProjects five_projects empty_page))))) = 5 \<and>
   nodes (run_timers (click_toggle (displayProjects five_projects empty_page))) =
     cards_for 0 five_projects @ [ViewMoreContainer show_less_label False]"
proof -
  have e: "projectsGrid empty_page \<noteq> None" "timers empty_page = []"
    by (simp_all add: empty_page_def)
  have l: "length five_projects = 5" by (simp add: five_projects_def)
  have d: "string_of_nat 2 = ''2''" by (simp add: string_of_nat_digit digit_char_def)
  have c: "cards_for 0 (take 3 five_projects) @ cards_for 3 (drop 3 five_projects) =
      cards_for 0 five_projects"
    by (simp add: five_projects_def eval_nat_numeral)
  from displayProjects_then_expand[OF e, of five_projects] l d c show ?thesis
    using e by auto
qed

text \<open>
  C7. The project records are read-only on the overview page. \<open>createProjectCard\<close> only
  returns a card. When the grid exists, \<open>displayProjects\<close> stores in \<open>window.allProjects\<close>
  the array it was given, and after any sequence of clicks on the toggle control and of
  timer callbacks (the expanding and the contracting included), run to the end or not, the
  cache still holds that array with every record as it was.
\<close>

theorem allProjects_read_only:
  assumes "projectsGrid s \<noteq> None"
  shows "allProjects (displayProjects ps s) = Some ps \<and>
         allProjects (run_events es (displayProjects ps s)) = Some ps \<and>
         allProjects (run_timers (run_events es (displayProjects ps s))) = Some ps \<and>
         (\<forall>s0 s'. expandProjectsView s0 = Inr s' \<longrightarrow> allProjects s' = allProjects s0) \<and>
         (\<forall>s0. allProjects (contractProjectsView s0) = allProjects s0)"
proof -
  from assms obtain g where g: "projectsGrid s = Some g" by auto
  have "allProjects (displayProjects ps s) = Some ps"
    by (rule displayProjects_frame(1)[OF g])
  then show ?thesis by (auto dest: expand_frame)
qed

theorem allProjects_read_only_witness:
  "projectsGrid empty_page \<noteq> None \<and>
   allProjects (run_events [Click, Timer, Timer, Click, Timer]
     (displayProjects five_projects empty_page)) = Some five_projects \<and>
   length (card_ids (run_events [Click, Timer, Timer, Click, Timer]
     (displayProjects five_projects empty_page))) = 5"
proof -
  have e: "projectsGrid empty_page \<noteq> None" by (simp add: empty_page_def)
  have "length (card_ids (run_events [Click, Timer, Timer, Click, Timer]
     (displayProjects five_projects empty_page))) = 5"
    by code_simp
  with allProjects_read_only[OF e, of five_projects "[Click, Timer, Timer, Click, Timer]"] e
  show ?thesis by blast
qed

subsection \<open>The loaders\<close>

lemma showProjectsLoading_frame [simp]:
  "requests (showProjectsLoading s) = requests s"
  "timers (showProjectsLoading s) = timers s"
  "allProjects (showProjectsLoading s) = allProjects s"
  "(projectsGrid (showProjectsLoading s) = None) = (projectsGrid s = None)"
  by (simp_all add: showProjectsLoading_def set_innerHTML_def split: option.splits)

lemma showProjectsError_frame [simp]:
  "requests (showProjectsError s) = requests s"
  "timers (showProjectsError s) = timers s"
  "allProjects (showProjectsError s) = allProjects s"
  by (simp_all add: showProjectsError_def set_innerHTML_def appendChild_def Let_def split: option.splits)

lemma showProjectsError_nodes:
  "projectsGrid s \<noteq> None \<Longrightarrow>
     nodes (showProjectsError s) = [ProjectsError, ProjectCard (createProjectCard sampleProject 0)]"
  by (auto simp: showProjectsError_def set_innerHTML_def appendChild_def Let_def nodes_def)

lemma displayProjects_requests [simp]:
  "requests (displayProjects ps s) = requests s"
  "timers (displayProjects ps s) = timers s"
  by (simp_all add: displayProjects_def Let_def appendChild_def split: option.splits)

lemma loadProjects_requests:
  "requests (loadProjects r s) = requests s @ [projectsDataPath]"
  "timers (loadProjects r s) = timers s"
  by (auto simp: loadProjects_def loadProjects_try_def Let_def
      split: sum.splits fetch_result.splits body.splits if_splits)

lemma loadProjects_try_failed:
  "failed_fetch r \<Longrightarrow> \<exists>e. loadProjects_try r s = Inl e"
  by (cases r rule: failed_fetch.cases)
    (auto simp: loadProjects_try_def has_projects_array_def
      split: sum.splits jsval.splits if_splits)

lemma loadProjects_failed_nodes:
  assumes "projectsGrid s \<noteq> None" "failed_fetch r"
  shows "nodes (loadProjects r s) = [ProjectsError, ProjectCard (createProjectCard sampleProject 0)]"
proof -
  let ?s1 = "showProjectsLoading s"
  let ?s2 = "?s1\<lparr>requests := requests ?s1 @ [projectsDataPath]\<rparr>"
  from loadProjects_try_failed[OF assms(2), of ?s2] obtain e where "loadProjects_try r ?s2 = Inl e" ..
  then have "loadProjects r s = showProjectsError ?s2"
    by (simp add: loadProjects_def Let_def)
  moreover have "projectsGrid ?s2 \<noteq> None" using assms(1) by simp
  ultimately show ?thesis by (simp add: showProjectsError_nodes)
qed





lemma failed_fetch_iff:
  "failed_fetch r \<longleftrightarrow>
     r = NetworkError \<or>
     (\<exists>st b. r = Response st b \<and>
        (b = NotJSON \<or> (\<exists>data. b = Parsed data \<and> (\<not> response_ok st \<or> \<not> has_projects_array data))))"
  by (cases r rule: failed_fetch.cases) auto

text \<open>
  C3, the claim as stated fails: after a network error the grid holds the error placeholder
  and, after it, the card of the hard-coded sample project that \<open>showProjectsError\<close> adds as
  a fallback.
\<close>

theorem loadProjects_error_not_only_placeholder:
  "nodes (loadProjects NetworkError empty_page) =
     [ProjectsError, ProjectCard (createProjectCard sampleProject 0)] \<and>
   nodes (loadProjects NetworkError empty_page) \<noteq> [ProjectsError] \<and>
   card_title (createProjectCard sampleProject 0) = ''Sample Project''"
  by (simp add: loadProjects_failed_nodes empty_page_def createProjectCard_def sampleProject_def)

text \<open>
  C3, as amended. For every failed projects fetch (a network error, a status that is not
  ok, a body that is not JSON, a document without a \<open>projects\<close> array), on a page whose grid
  exists, \<open>loadProjects\<close> leaves in the grid the static error placeholder with its retry
  button, followed by the card of the hard-coded sample project. It does not retry: the
  call issues one request and sets no timer, no click on the toggle and no timer callback
  issues a request, and a click on the retry control issues exactly one more.
\<close>

theorem loadProjects_failure_state:
  assumes "projectsGrid s \<noteq> None" and "failed_fetch r"
  shows "nodes (loadProjects r s) =
           [ProjectsError, ProjectCard (createProjectCard sampleProject 0)] \<and>
         requests (loadProjects r s) = requests s @ [projectsDataPath] \<and>
         timers (loadProjects r s) = timers s \<and>
         requests (run_timers (loadProjects r s)) = requests s @ [projectsDataPath] \<and>
         requests (run_events es (loadProjects r s)) = requests s @ [projectsDataPath] \<and>
         requests (click_retry r' (loadProjects r s)) =
           requests s @ [projectsDataPath, projectsDataPath]"
proof -
  have n: "nodes (loadProjects r s) =
      [ProjectsError, ProjectCard (createProjectCard sampleProject 0)]"
    by (rule loadProjects_failed_nodes[OF assms])
  then have "click_retry r' (loadProjects r s) = loadProjects r' (loadProjects r s)"
    by (simp add: click_retry_def)
  then have "requests (click_retry r' (loadProjects r s)) =
      requests s @ [projectsDataPath, projectsDataPath]"
    by (simp add: loadProjects_requests)
  with n show ?thesis by (simp add: loadProjects_requests)
qed

theorem loadProjects_failure_state_witness:
  "projectsGrid empty_page \<noteq> None \<and> failed_fetch (Response 404 NotJSON) \<and>
   nodes (loadProjects (Response 404 NotJSON) empty_page) =
     [ProjectsError, ProjectCard (createProjectCard sampleProject 0)] \<and>
   requests (loadProjects (Response 404 NotJSON) empty_page) = [''./data/projects.json''] \<and>
   timers (loadProjects (Response 404 NotJSON) empty_page) = [] \<and>
   requests (click_retry NetworkError (loadProjects (Response 404 NotJSON) empty_page)) =
     [''./data/projects.json'', ''./data/projects.json'']"
proof -
  have e: "projectsGrid empty_page \<noteq> None" by (simp add: empty_page_def)
  have f: "failed_fetch (Response 404 NotJSON)" by simp
  from loadProjects_failure_state[OF e f, of "[]" NetworkError] e f show ?thesis
    by (simp add: empty_page_def projectsDataPath_def)
qed




subsection \<open>The contact form\<close>

lemma showFieldError_frame [simp]:
  "form_requests (showFieldError f m s) = form_requests s"
  "submitButton (showFieldError f m s) = submitButton s"
  "named_elements (showFieldError f m s) = named_elements s"
  "form_timers (showFieldError f m s) = form_timers s"
  "form_action (showFieldError f m s) = form_action s"
  by (simp_all add: showFieldError_def)


lemma check_required_frame [simp]:
  "form_requests (snd (check_required fv fs (v, s))) = form_requests s"
  "submitButton (snd (check_required fv fs (v, s))) = submitButton s"
  "named_elements (snd (check_required fv fs (v, s))) = named_elements s"
  "form_timers (snd (check_required fv fs (v, s))) = form_timers s"
  "form_action (snd (check_required fv fs (v, s))) = form_action s"
  by (induction fv fs "(v, s)" arbitrary: v s rule: check_required.induct) simp_all

lemma check_required_valid:
  "fst (check_required fv fs (v, s)) \<longleftrightarrow> v \<and> (\<forall>f\<in>set fs. \<not> missing_or_blank fv f)"
  by (induction fv fs "(v, s)" arbitrary: v s rule: check_required.induct) auto


lemma validate_alt:
  "validateContactForm fv s =
     (if email_rejected fv
      then (False, showFieldError ''email'' ''Please enter a valid email address''
              (snd (check_required fv requiredFields (True, s))))
      else check_required fv requiredFields (True, s))"
  by (simp add: validateContactForm_def case_prod_beta)

lemma validate_frame [simp]:
  "form_requests (snd (validateContactForm fv s)) = form_requests s"
  "submitButton (snd (validateContactForm fv s)) = submitButton s"
  "named_elements (snd (validateContactForm fv s)) = named_elements s"
  "form_timers (snd (validateContactForm fv s)) = form_timers s"
  "form_action (snd (validateContactForm fv s)) = form_action s"
  by (simp_all add: validate_alt)

lemma validate_valid:
  "fst (validateContactForm fv s) \<longleftrightarrow>
     (\<forall>f\<in>set requiredFields. \<not> missing_or_blank fv f) \<and> \<not> email_rejected fv"
  by (simp add: validate_alt check_required_valid)



lemma showFormLoading_frame [simp]:
  "form_requests (showFormLoading l s) = form_requests s"
  "form_timers (showFormLoading l s) = form_timers s"
  "field_errors (showFormLoading l s) = field_errors s"
  "form_action (showFormLoading l s) = form_action s"
  by (simp_all add: showFormLoading_def split: option.splits)

lemma showFormLoading_button:
  "submitButton s \<noteq> None \<Longrightarrow>
     submitButton (showFormLoading l s) =
       Some (if l then \<lparr>btn_disabled = True, btn_text = ''Sending...'', btn_loading = True\<rparr>
             else \<lparr>btn_disabled = False, btn_text = ''Send Message'', btn_loading = False\<rparr>)"
  by (auto simp: showFormLoading_def)

lemma show_server_errors_frame [simp]:
  "submitButton (show_server_errors es s) = submitButton s"
  "form_requests (show_server_errors es s) = form_requests s"
  by (induction es s rule: show_server_errors.induct) (simp_all split: option.splits)

lemma submit_try_button:
  "submitButton (case submit_try r s of Returned s' \<Rightarrow> s'
       | Threw e s' \<Rightarrow> showFormError send_error_text s') = submitButton s"
  "form_requests (case submit_try r s of Returned s' \<Rightarrow> s'
       | Threw e s' \<Rightarrow> showFormError send_error_text s') = form_requests s"
  by (auto simp: submit_try_def showFormError_def showFormSuccess_def form_reset_def
      split: fetch_result.splits body.splits sum.splits jsval.splits)



text \<open>
  C9. After every run of \<open>handleContactFormSubmit\<close> that passes the validation, on a form
  that has a submit button, the button is enabled again with the text \<open>Send Message\<close> once
  the submission has settled, whatever the request came to: a network error, an ok
  answer, an answer with field errors, an answer that is not JSON or has no errors. One
  request was sent, and while it was out the button was disabled with the text
  \<open>Sending...\<close>.
\<close>

theorem submit_button_restored:
  assumes "fst (validateContactForm formValues s)" and "submitButton s \<noteq> None"
  shows "submitButton (handleContactFormSubmit r formValues s) =
           Some \<lparr>btn_disabled = False, btn_text = ''Send Message'', btn_loading = False\<rparr> \<and>
         form_requests (handleContactFormSubmit r formValues s) =
           form_requests s @ [(form_action s, ''POST'')] \<and>
         submitButton (showFormLoading True (snd (validateContactForm formValues s))) =
           Some \<lparr>btn_disabled = True, btn_text = ''Sending...'', btn_loading = True\<rparr>"
proof -
  let ?s1 = "snd (validateContactForm formValues s)"
  let ?s2 = "showFormLoading True ?s1"
  let ?s3 = "?s2\<lparr>form_requests := form_requests ?s2 @ [(form_action ?s2, ''POST'')]\<rparr>"
  let ?s4 = "case submit_try r ?s3 of Returned s' \<Rightarrow> s'
    | Threw e s' \<Rightarrow> showFormError send_error_text s'"
  have h: "handleContactFormSubmit r formValues s = showFormLoading False ?s4"
    using assms(1) by (simp add: handleContactFormSubmit_def case_prod_beta Let_def)
  have b2: "submitButton ?s2 =
      Some \<lparr>btn_disabled = True, btn_text = ''Sending...'', btn_loading = True\<rparr>"
    using assms(2) by (simp add: showFormLoading_button)
  have "submitButton ?s4 = submitButton ?s3" by (rule submit_try_button)
  with b2 have "submitButton ?s4 \<noteq> None" by simp
  then have b: "submitButton (showFormLoading False ?s4) =
      Some \<lparr>btn_disabled = False, btn_text = ''Send Message'', btn_loading = False\<rparr>"
    by (simp add: showFormLoading_button)
  have "form_requests ?s4 = form_requests ?s3" by (rule submit_try_button)
  then have q: "form_requests (showFormLoading False ?s4) =
      form_requests s @ [(form_action s, ''POST'')]"
    by simp
  from h b q b2 show ?thesis by simp
qed

theorem submit_button_restored_witness:
  "fst (validateContactForm good_values contact_form) \<and> submitButton contact_form \<noteq> None \<and>
   submitButton (handleContactFormSubmit NetworkError good_values contact_form) =
     Some \<lparr>btn_disabled = False, btn_text = ''Send Message'', btn_loading = False\<rparr> \<and>
   submitButton (handleContactFormSubmit (Response 200 NotJSON) good_values contact_form) =
     Some \<lparr>btn_disabled = False, btn_text = ''Send Message'', btn_loading = False\<rparr> \<and>
   submitButton (handleContactFormSubmit
       (Response 422 (Parsed (JObj [(''errors'',
          JArr [\<lparr>se_field = Some ''email'', se_message = ''should be an email''\<rparr>])])))
       good_values contact_form) =
     Some \<lparr>btn_disabled = False, btn_text = ''Send Message'', btn_loading = False\<rparr> \<and>
   form_requests (handleContactFormSubmit NetworkError good_values contact_form) =
     [(''https://formspree.io/f/xdkokykj'', ''POST'')]"
proof -
  have v: "fst (validateContactForm good_values contact_form)"
    by (simp add: validate_valid requiredFields_def missing_or_blank_def good_values_def
        js_trim_def is_js_space_def email_rejected_def isValidEmail_def)
  have b: "submitButton contact_form \<noteq> None" "form_requests contact_form = []"
    "form_action contact_form = ''https://formspree.io/f/xdkokykj''"
    by (simp_all add: contact_form_def)
  from submit_button_restored[OF v b(1), of NetworkError]
    submit_button_restored[OF v b(1), of "Response 200 NotJSON"]
    submit_button_restored[OF v b(1), of "Response 422 (Parsed (JObj [(''errors'',
          JArr [\<lparr>se_field = Some ''email'', se_message = ''should be an email''\<rparr>])]))"]
    v b
  show ?thesis by simp
qed

lemma find_Some_props: "find P xs = Some x \<Longrightarrow> x \<in> set xs \<and> P x"
  by (induction xs) (auto split: if_splits)

lemma strict_eq_string_iff: "strict_eq_string i s \<longleftrightarrow> i = IdStr s"
  by (cases i) auto


text \<open>
  C10. \<open>findBlogById\<close> returns a record of the loaded array only when the record's \<open>id\<close> is
  the very string taken from the URL, and \<open>null\<close> when no record has that string as its
  \<open>id\<close>; \<open>displayBlogContent(null)\<close> shows the not-found message. A record whose \<open>id\<close> is a
  number is never returned, whatever the URL says: when every record has a number as its
  \<open>id\<close>, the page ends with the not-found message for every identifier, the decimal text
  of such a number included.
\<close>

theorem findBlogById_strict_equality:
  "(findBlogById (JArr bs) blogId = Inr (Some b) \<longrightarrow> b \<in> set bs \<and> b_id b = IdStr blogId) \<and>
   ((\<forall>x\<in>set bs. b_id x \<noteq> IdStr blogId) \<longrightarrow> findBlogById (JArr bs) blogId = Inr None) \<and>
   ((\<exists>x\<in>set bs. b_id x = IdStr blogId) \<longrightarrow>
      (\<exists>x. findBlogById (JArr bs) blogId = Inr (Some x))) \<and>
   bd_content (displayBlogContent None s) = BlogNotFound \<and>
   (b_id b = IdNum n \<longrightarrow> findBlogById (JArr bs) blogId \<noteq> Inr (Some b)) \<and>
   ((\<forall>x\<in>set bs. \<exists>m. b_id x = IdNum m) \<and> blogId \<noteq> [] \<and> response_ok st \<longrightarrow>
      bd_content (initializeBlogDetail (Some blogId) (Response st (Parsed (JArr bs))) s) =
        BlogNotFound)"
proof -
  let ?P = "\<lambda>blog. strict_eq_string (b_id blog) blogId"
  have f: "findBlogById (JArr bs) blogId = Inr (find ?P bs)"
    by (simp add: findBlogById_def)
  have a: "b \<in> set bs \<and> b_id b = IdStr blogId" if "findBlogById (JArr bs) blogId = Inr (Some b)"
    using that find_Some_props[of ?P bs b] by (simp add: f strict_eq_string_iff)
  have n: "findBlogById (JArr bs) blogId = Inr None" if "\<forall>x\<in>set bs. b_id x \<noteq> IdStr blogId"
    using that by (simp add: f find_None_iff strict_eq_string_iff)
  have e: "\<exists>x. findBlogById (JArr bs) blogId = Inr (Some x)" if "\<exists>x\<in>set bs. b_id x = IdStr blogId"
  proof (cases "find ?P bs")
    case None
    with that show ?thesis by (auto simp: find_None_iff strict_eq_string_iff)
  next
    case (Some x)
    then show ?thesis by (simp add: f)
  qed
  have d: "bd_content (displayBlogContent None s) = BlogNotFound"
    by (simp add: displayBlogContent_def)
  have m: "findBlogById (JArr bs) blogId \<noteq> Inr (Some b)" if "b_id b = IdNum n"
    using that a by auto
  have p: "bd_content (initializeBlogDetail (Some blogId) (Response st (Parsed (JArr bs))) s) =
      BlogNotFound"
    if h: "\<forall>x\<in>set bs. \<exists>m. b_id x = IdNum m" "blogId \<noteq> []" "response_ok st"
  proof -
    from h(1) have "\<forall>x\<in>set bs. b_id x \<noteq> IdStr blogId" by auto
    then have "find ?P bs = None" by (simp add: find_None_iff strict_eq_string_iff)
    then show ?thesis
      using h(2,3)
      by (simp add: initializeBlogDetail_def loadBlogData_def Let_def findBlogById_def
          displayBlogContent_def)
  qed
  from a n e d m p show ?thesis by blast
qed

theorem findBlogById_strict_equality_witness:
  "findBlogById (JArr [demo_blog (IdNum 1), demo_blog (IdStr ''intro'')]) ''intro'' =
     Inr (Some (demo_blog (IdStr ''intro''))) \<and>
   findBlogById (JArr [demo_blog (IdNum 1), demo_blog (IdStr ''intro'')]) ''1'' = Inr None \<and>
   js_string_of_id (IdNum 1) = ''1'' \<and> response_ok 200 \<and>
   bd_content (initializeBlogDetail (Some ''1'')
     (Response 200 (Parsed (JArr [demo_blog (IdNum 1)]))) empty_blog_detail) = BlogNotFound"
proof -
  have s: "js_string_of_id (IdNum 1) = ''1''"
    by (simp add: string_of_int_def string_of_nat_digit digit_char_def)
  have r: "response_ok 200" by (simp add: response_ok_def)
  have f: "findBlogById (JArr [demo_blog (IdNum 1), demo_blog (IdStr ''intro'')]) ''intro'' =
      Inr (Some (demo_blog (IdStr ''intro'')))"
    by (simp add: findBlogById_def demo_blog_def)
  have i: "\<exists>x\<in>set [demo_blog (IdNum 1), demo_blog (IdStr ''intro'')]. b_id x = IdStr ''intro''"
    "\<forall>x\<in>set [demo_blog (IdNum 1), demo_blog (IdStr ''intro'')]. b_id x \<noteq> IdStr ''1''"
    "\<forall>x\<in>set [demo_blog (IdNum 1)]. \<exists>m. b_id x = IdNum m" "''1'' \<noteq> []"
    by (simp_all add: demo_blog_def)
  from findBlogById_strict_equality[of "[demo_blog (IdNum 1), demo_blog (IdStr ''intro'')]"
      "''1''" b empty_blog_detail n 200 for b n]
    findBlogById_strict_equality[of "[demo_blog (IdNum 1)]" "''1''" b empty_blog_detail n 200
      for b n]
    f s r i
  show ?thesis by blast
qed

subsection \<open>The hand-over of the project id\<close>
















subsection \<open>Markdown to HTML\<close>

lemma plain_textD:
  assumes "plain_text t"
  shows "CHR ''*'' \<notin> set t" "CHR 0x60 \<notin> set t" "CHR ''['' \<notin> set t" "CHR ''<'' \<notin> set t"
    "\<forall>c\<in>set t. \<not> is_line_terminator c" "CHR 0x0A \<notin> set t"
  using assms by (auto simp: plain_text_def list_all_iff is_line_terminator_def)

lemma replace_lines_one_line:
  "\<forall>c\<in>set t. \<not> is_line_terminator c \<Longrightarrow> replace_lines f acc t = f (rev acc @ t)"
  by (induction t arbitrary: acc) simp_all

lemma replace_lines_first_line:
  "\<forall>c\<in>set t. \<not> is_line_terminator c \<Longrightarrow> is_line_terminator n \<Longrightarrow>
     replace_lines f acc (t @ n # rest) = f (rev acc @ t) @ n # replace_lines f [] rest"
  by (induction t arbitrary: acc) simp_all

lemma replace_delimited_none:
  "d \<noteq> [] \<Longrightarrow> hd d \<notin> set s \<Longrightarrow> replace_delimited d a b s = s"
proof (induction s)
  case Nil
  show ?case by simp
next
  case (Cons c cs)
  then have "take (length d) (c # cs) \<noteq> d" by (cases d) auto
  with Cons show ?case by simp
qed

lemma find_close_here:
  "d \<noteq> [] \<Longrightarrow> hd d \<notin> set t \<Longrightarrow> multi \<or> (\<forall>c\<in>set t. \<not> is_line_terminator c) \<Longrightarrow>
     find_close d multi (t @ d @ rest) = Some (t, rest)"
proof (induction t)
  case Nil
  then show ?case by (cases d) simp_all
next
  case (Cons c cs)
  then have "take (length d) (c # cs @ d @ rest) \<noteq> d" by (cases d) auto
  with Cons show ?case by auto
qed

lemma replace_fences_none: "CHR 0x60 \<notin> set s \<Longrightarrow> replace_fences s = s"
  by (induction s) auto

lemma replace_links_none: "CHR ''['' \<notin> set s \<Longrightarrow> replace_links s = s"
  by (induction s) auto

lemma replace_blank_lines_skip:
  "CHR 0x0A \<notin> set a \<Longrightarrow> replace_blank_lines (a @ rest) = a @ replace_blank_lines rest"
proof (induction a)
  case Nil
  show ?case by simp
next
  case (Cons c cs)
  then show ?case by (cases "cs @ rest") auto
qed

lemma replace_blank_lines_none: "CHR 0x0A \<notin> set a \<Longrightarrow> replace_blank_lines a = a"
  using replace_blank_lines_skip[of a "[]"] by simp

lemma find_li_skip:
  "CHR ''<'' \<notin> set t \<Longrightarrow>
     find_close ''<li>'' True (t @ rest) =
       map_option (\<lambda>(a, r). (t @ a, r)) (find_close ''<li>'' True rest)"
proof (induction t)
  case Nil
  show ?case by (simp add: option.map_ident case_prod_beta split_def)
next
  case (Cons c cs)
  then show ?case by (auto simp: option.map_comp comp_def case_prod_beta)
qed

lemma find_li_none: "CHR ''<'' \<notin> set t \<Longrightarrow> find_close ''<li>'' True t = None"
  using find_li_skip[of t "[]"] by simp

lemma wrap_list_none: "find_close ''<li>'' True s = None \<Longrightarrow> wrap_list s = s"
  by (simp add: wrap_list_def)

lemma is_digit_simps [simp]:
  "\<not> is_digit (CHR ''<'')" "\<not> is_digit (CHR ''['')" "\<not> is_digit (CHR 0x60)"
  "\<not> is_digit (CHR ''*'')" "\<not> is_digit (CHR ''#'')"
  by (simp_all add: is_digit_def)

lemma is_line_terminator_simps [simp]:
  "is_line_terminator (CHR 0x0A)" "is_line_terminator (CHR 0x0D)"
  by (simp_all add: is_line_terminator_def)

text \<open>A text in tags that runs through the rules behind the one that made it.\<close>

lemma tagged_passes_block_rules:
  assumes t: "plain_text t"
    and a: "a \<noteq> []" "hd a = CHR ''<''" "CHR 0x0A \<notin> set a" "CHR ''['' \<notin> set a"
      "\<forall>c\<in>set a. \<not> is_line_terminator c" "find_close ''<li>'' True (a @ t @ b) = None"
    and b: "CHR 0x0A \<notin> set b" "CHR ''['' \<notin> set b" "\<forall>c\<in>set b. \<not> is_line_terminator c"
  shows "replace_links (replace_numbered (wrap_list (replace_bullets
           (replace_blank_lines (a @ t @ b))))) = a @ t @ b"
proof -
  let ?s = "a @ t @ b"
  from a obtain a' where a': "a = CHR ''<'' # a'" by (cases a) auto
  have nl: "\<forall>c\<in>set ?s. \<not> is_line_terminator c"
    using plain_textD(5)[OF t] a(5) b(3) by auto
  have 1: "replace_blank_lines ?s = ?s"
    using plain_textD(6)[OF t] a(3) b(1) by (simp add: replace_blank_lines_none)
  have 2: "replace_bullets ?s = ?s"
    by (simp add: replace_bullets_def replace_lines_one_line[OF nl]) (simp add: a' wrap_line_def)
  have 3: "wrap_list ?s = ?s" by (rule wrap_list_none[OF a(6)])
  have 4: "replace_numbered ?s = ?s"
    by (simp add: replace_numbered_def replace_lines_one_line[OF nl])
      (simp add: a' numbered_line_def)
  have 5: "replace_links ?s = ?s"
    using plain_textD(3)[OF t] a(4) b(2) by (simp add: replace_links_none)
  show ?thesis by (simp only: 1 2 3 4 5)
qed

lemma find_li_in_tagged:
  "CHR ''<'' \<notin> set t \<Longrightarrow> find_close ''<li>'' True (''<h1>'' @ t @ ''</h1>'') = None"
  "CHR ''<'' \<notin> set t \<Longrightarrow> find_close ''<li>'' True (''<h2>'' @ t @ ''</h2>'') = None"
  "CHR ''<'' \<notin> set t \<Longrightarrow> find_close ''<li>'' True (''<h3>'' @ t @ ''</h3>'') = None"
  "CHR ''<'' \<notin> set t \<Longrightarrow> find_close ''<li>'' True (''<strong>'' @ t @ ''</strong>'') = None"
  "CHR ''<'' \<notin> set t \<Longrightarrow> find_close ''<li>'' True (''<em>'' @ t @ ''</em>'') = None"
  "CHR ''<'' \<notin> set t \<Longrightarrow> find_close ''<li>'' True (''<code>'' @ t @ ''</code>'') = None"
  by (simp_all add: find_li_skip)

lemma inline_rules_none:
  "CHR ''*'' \<notin> set s \<Longrightarrow> CHR 0x60 \<notin> set s \<Longrightarrow>
     replace_inline_code (replace_fences (replace_italic (replace_bold s))) = s"
  by (simp add: replace_bold_def replace_italic_def replace_inline_code_def
      replace_delimited_none replace_fences_none)

lemma heading_rules_other_line:
  assumes "\<forall>c\<in>set l. \<not> is_line_terminator c" and "l = [] \<or> hd l \<noteq> CHR ''#''"
  shows "replace_h1 (replace_h2 (replace_h3 l)) = l"
proof -
  have "wrap_line (CHR ''#'' # m) a b l = l" for m a b
    using assms(2) by (cases l) (auto simp: wrap_line_def)
  then show ?thesis
    by (simp add: replace_h1_def replace_h2_def replace_h3_def replace_lines_one_line[OF assms(1)])
qed

lemma heading_rules_line:
  assumes "\<forall>c\<in>set l. \<not> is_line_terminator c"
  shows "replace_h3 l = wrap_line ''### '' ''<h3>'' ''</h3>'' l"
    and "replace_h2 l = wrap_line ''## '' ''<h2>'' ''</h2>'' l"
    and "replace_h1 l = wrap_line ''# '' ''<h1>'' ''</h1>'' l"
  using replace_lines_one_line[OF assms, of _ "[]"]
  by (simp_all add: replace_h3_def replace_h2_def replace_h1_def)

lemma no_terminator_append:
  "(\<forall>c\<in>set (a @ t @ b). \<not> is_line_terminator c) \<longleftrightarrow>
     (\<forall>c\<in>set a. \<not> is_line_terminator c) \<and> (\<forall>c\<in>set t. \<not> is_line_terminator c) \<and>
     (\<forall>c\<in>set b. \<not> is_line_terminator c)"
  by auto

lemma convert_heading:
  assumes "plain_text t"
  shows "convertMarkdownToHTML (''# '' @ t) = ''<h1>'' @ t @ ''</h1>''"
    and "convertMarkdownToHTML (''## '' @ t) = ''<h2>'' @ t @ ''</h2>''"
    and "convertMarkdownToHTML (''### '' @ t) = ''<h3>'' @ t @ ''</h3>''"
proof -
  note p = plain_textD[OF assms]
  have nl: "\<forall>c\<in>set (a @ t @ b). \<not> is_line_terminator c"
    if "\<forall>c\<in>set a. \<not> is_line_terminator c" "\<forall>c\<in>set b. \<not> is_line_terminator c" for a b
    using p(5) that by (simp only: no_terminator_append)
  have l1: "\<forall>c\<in>set (''# '' @ t). \<not> is_line_terminator c"
    and l2: "\<forall>c\<in>set (''## '' @ t). \<not> is_line_terminator c"
    and l3: "\<forall>c\<in>set (''### '' @ t). \<not> is_line_terminator c"
    using p(5) by (auto simp: is_line_terminator_def)
  have m1: "\<forall>c\<in>set (''<h1>'' @ t @ ''</h1>''). \<not> is_line_terminator c"
    and m2: "\<forall>c\<in>set (''<h2>'' @ t @ ''</h2>''). \<not> is_line_terminator c"
    and m3: "\<forall>c\<in>set (''<h3>'' @ t @ ''</h3>''). \<not> is_line_terminator c"
    by (rule nl; simp add: is_line_terminator_def)+
  have w1: "wrap_line ''### '' ''<h3>'' ''</h3>'' (''# '' @ t) = ''# '' @ t"
    "wrap_line ''## '' ''<h2>'' ''</h2>'' (''# '' @ t) = ''# '' @ t"
    "wrap_line ''# '' ''<h1>'' ''</h1>'' (''# '' @ t) = ''<h1>'' @ t @ ''</h1>''"
    by (simp_all add: wrap_line_def)
  have w2: "wrap_line ''### '' ''<h3>'' ''</h3>'' (''## '' @ t) = ''## '' @ t"
    "wrap_line ''## '' ''<h2>'' ''</h2>'' (''## '' @ t) = ''<h2>'' @ t @ ''</h2>''"
    "wrap_line ''# '' ''<h1>'' ''</h1>'' (''<h2>'' @ t @ ''</h2>'') = ''<h2>'' @ t @ ''</h2>''"
    by (simp_all add: wrap_line_def)
  have w3: "wrap_line ''### '' ''<h3>'' ''</h3>'' (''### '' @ t) = ''<h3>'' @ t @ ''</h3>''"
    "wrap_line ''## '' ''<h2>'' ''</h2>'' (''<h3>'' @ t @ ''</h3>'') = ''<h3>'' @ t @ ''</h3>''"
    "wrap_line ''# '' ''<h1>'' ''</h1>'' (''<h3>'' @ t @ ''</h3>'') = ''<h3>'' @ t @ ''</h3>''"
    by (simp_all add: wrap_line_def)
  have h1: "replace_h1 (replace_h2 (replace_h3 (''# '' @ t))) = ''<h1>'' @ t @ ''</h1>''"
    by (simp only: heading_rules_line[OF l1] w1)
  have h2: "replace_h1 (replace_h2 (replace_h3 (''## '' @ t))) = ''<h2>'' @ t @ ''</h2>''"
    by (simp only: heading_rules_line[OF l2] heading_rules_line[OF m2] w2)
  have h3: "replace_h1 (replace_h2 (replace_h3 (''### '' @ t))) = ''<h3>'' @ t @ ''</h3>''"
    by (simp only: heading_rules_line[OF l3] heading_rules_line[OF m3] w3)
  have i: "replace_inline_code (replace_fences (replace_italic (replace_bold (a @ t @ b)))) =
      a @ t @ b"
    if "CHR ''*'' \<notin> set (a @ b)" "CHR 0x60 \<notin> set (a @ b)" for a b
    using that p(1,2) by (simp add: inline_rules_none)
  have b: "replace_links (replace_numbered (wrap_list (replace_bullets
           (replace_blank_lines (a @ t @ b))))) = a @ t @ b"
    if "a \<noteq> []" "hd a = CHR ''<''" "CHR 0x0A \<notin> set a" "CHR ''['' \<notin> set a"
      "\<forall>c\<in>set a. \<not> is_line_terminator c" "find_close ''<li>'' True (a @ t @ b) = None"
      "CHR 0x0A \<notin> set b" "CHR ''['' \<notin> set b" "\<forall>c\<in>set b. \<not> is_line_terminator c" for a b
    using tagged_passes_block_rules[OF assms that] .
  have i1: "replace_inline_code (replace_fences (replace_italic (replace_bold
      (''<h1>'' @ t @ ''</h1>'')))) = ''<h1>'' @ t @ ''</h1>''"
    by (rule i) simp_all
  have i2: "replace_inline_code (replace_fences (replace_italic (replace_bold
      (''<h2>'' @ t @ ''</h2>'')))) = ''<h2>'' @ t @ ''</h2>''"
    by (rule i) simp_all
  have i3: "replace_inline_code (replace_fences (replace_italic (replace_bold
      (''<h3>'' @ t @ ''</h3>'')))) = ''<h3>'' @ t @ ''</h3>''"
    by (rule i) simp_all
  have b1: "replace_links (replace_numbered (wrap_list (replace_bullets
      (replace_blank_lines (''<h1>'' @ t @ ''</h1>''))))) = ''<h1>'' @ t @ ''</h1>''"
    by (rule b) (simp_all add: is_line_terminator_def find_li_skip p(4))
  have b2: "replace_links (replace_numbered (wrap_list (replace_bullets
      (replace_blank_lines (''<h2>'' @ t @ ''</h2>''))))) = ''<h2>'' @ t @ ''</h2>''"
    by (rule b) (simp_all add: is_line_terminator_def find_li_skip p(4))
  have b3: "replace_links (replace_numbered (wrap_list (replace_bullets
      (replace_blank_lines (''<h3>'' @ t @ ''</h3>''))))) = ''<h3>'' @ t @ ''</h3>''"
    by (rule b) (simp_all add: is_line_terminator_def find_li_skip p(4))
  show "convertMarkdownToHTML (''# '' @ t) = ''<h1>'' @ t @ ''</h1>''"
    by (simp only: convertMarkdownToHTML_def h1 i1 b1)
  show "convertMarkdownToHTML (''## '' @ t) = ''<h2>'' @ t @ ''</h2>''"
    by (simp only: convertMarkdownToHTML_def h2 i2 b2)
  show "convertMarkdownToHTML (''### '' @ t) = ''<h3>'' @ t @ ''</h3>''"
    by (simp only: convertMarkdownToHTML_def h3 i3 b3)
qed

lemma list_rules_single_line:
  assumes "\<forall>c\<in>set s. \<not> is_line_terminator c"
    and "s = [] \<or> (hd s \<noteq> CHR ''-'' \<and> \<not> is_digit (hd s))"
    and "find_close ''<li>'' True s = None" and "CHR ''['' \<notin> set s"
  shows "replace_links (replace_numbered (wrap_list (replace_bullets s))) = s"
proof -
  have 2: "replace_bullets s = s"
    using assms(2)
    by (simp add: replace_bullets_def replace_lines_one_line[OF assms(1)])
      (cases s; auto simp: wrap_line_def)
  have 3: "wrap_list s = s" by (rule wrap_list_none[OF assms(3)])
  have 4: "replace_numbered s = s"
    using assms(2)
    by (simp add: replace_numbered_def replace_lines_one_line[OF assms(1)])
      (cases s; auto simp: numbered_line_def)
  have 5: "replace_links s = s"
    using assms(4) by (simp add: replace_links_none)
  show ?thesis by (simp only: 2 3 4 5)
qed

lemma replace_delimited_pair:
  assumes "d \<noteq> []" and "hd d \<notin> set t" and "\<forall>c\<in>set t. \<not> is_line_terminator c"
  shows "replace_delimited d a b (d @ t @ d) = a @ t @ b"
proof -
  from assms(1) obtain x xs where d: "d = x # xs" by (cases d) auto
  have f: "find_close d False (t @ d @ []) = Some (t, [])"
    by (rule find_close_here) (use assms in auto)
  have "replace_delimited d a b (x # (xs @ t @ d)) = a @ t @ b"
    using f d by (simp del: find_close.simps)
  then show ?thesis by (simp add: d)
qed

lemma bold_keeps_single_stars:
  assumes "CHR ''*'' \<notin> set t"
  shows "replace_bold (''*'' @ t @ ''*'') = ''*'' @ t @ ''*''"
proof -
  have e: "replace_bold (u @ ''*'') = u @ ''*''" if "CHR ''*'' \<notin> set u" for u
    using that by (induction u) (auto simp: replace_bold_def)
  show ?thesis
  proof (cases t)
    case Nil
    then show ?thesis by (simp add: replace_bold_def)
  next
    case (Cons c cs)
    with assms have "c \<noteq> CHR ''*''" by auto
    then have "replace_bold (CHR ''*'' # c # cs @ ''*'') = CHR ''*'' # replace_bold ((c # cs) @ ''*'')"
      by (simp add: replace_bold_def)
    with e[of "c # cs"] assms Cons show ?thesis by simp
  qed
qed

lemma fences_keep_single_ticks:
  assumes "CHR 0x60 \<notin> set t"
  shows "replace_fences ([CHR 0x60] @ t @ [CHR 0x60]) = [CHR 0x60] @ t @ [CHR 0x60]"
proof -
  have e: "replace_fences (u @ [CHR 0x60]) = u @ [CHR 0x60]" if "CHR 0x60 \<notin> set u" for u
    using that by (induction u) auto
  show ?thesis
  proof (cases t)
    case Nil
    then show ?thesis by simp
  next
    case (Cons c cs)
    with assms have "c \<noteq> CHR 0x60" by auto
    then have "replace_fences (CHR 0x60 # c # cs @ [CHR 0x60]) =
        CHR 0x60 # replace_fences ((c # cs) @ [CHR 0x60])"
      by simp
    with e[of "c # cs"] assms Cons show ?thesis by simp
  qed
qed

lemma convert_tagged:
  assumes t: "plain_text t"
    and h: "replace_inline_code (replace_fences (replace_italic (replace_bold
              (replace_h1 (replace_h2 (replace_h3 input)))))) = a @ t @ b"
    and a: "a \<noteq> []" "hd a = CHR ''<''" "CHR 0x0A \<notin> set a" "CHR ''['' \<notin> set a"
      "\<forall>c\<in>set a. \<not> is_line_terminator c" "find_close ''<li>'' True (a @ t @ b) = None"
    and b: "CHR 0x0A \<notin> set b" "CHR ''['' \<notin> set b" "\<forall>c\<in>set b. \<not> is_line_terminator c"
  shows "convertMarkdownToHTML input = a @ t @ b"
  by (simp only: convertMarkdownToHTML_def h tagged_passes_block_rules[OF t a b])

lemma convert_bold:
  assumes "plain_text t"
  shows "convertMarkdownToHTML (''**'' @ t @ ''**'') = ''<strong>'' @ t @ ''</strong>''"
proof -
  note p = plain_textD[OF assms]
  have nl: "\<forall>c\<in>set (''**'' @ t @ ''**''). \<not> is_line_terminator c"
    using p(5) by (auto simp: is_line_terminator_def)
  have 1: "replace_h1 (replace_h2 (replace_h3 (''**'' @ t @ ''**''))) = ''**'' @ t @ ''**''"
    by (rule heading_rules_other_line[OF nl]) simp
  have 2: "replace_bold (''**'' @ t @ ''**'') = ''<strong>'' @ t @ ''</strong>''"
    unfolding replace_bold_def by (rule replace_delimited_pair) (use p in auto)
  have 3: "replace_inline_code (replace_fences (replace_italic (''<strong>'' @ t @ ''</strong>'')))
      = ''<strong>'' @ t @ ''</strong>''"
    using p(1,2)
    by (simp add: replace_italic_def replace_inline_code_def replace_delimited_none
        replace_fences_none)
  show ?thesis
    by (rule convert_tagged[OF assms])
      (simp_all only: 1 2 3, simp_all add: is_line_terminator_def find_li_skip p(4))
qed

lemma convert_italic:
  assumes "plain_text t"
  shows "convertMarkdownToHTML (''*'' @ t @ ''*'') = ''<em>'' @ t @ ''</em>''"
proof -
  note p = plain_textD[OF assms]
  have nl: "\<forall>c\<in>set (''*'' @ t @ ''*''). \<not> is_line_terminator c"
    using p(5) by (auto simp: is_line_terminator_def)
  have 1: "replace_h1 (replace_h2 (replace_h3 (''*'' @ t @ ''*''))) = ''*'' @ t @ ''*''"
    by (rule heading_rules_other_line[OF nl]) simp
  have 2: "replace_bold (''*'' @ t @ ''*'') = ''*'' @ t @ ''*''"
    by (rule bold_keeps_single_stars[OF p(1)])
  have 3: "replace_italic (''*'' @ t @ ''*'') = ''<em>'' @ t @ ''</em>''"
    unfolding replace_italic_def by (rule replace_delimited_pair) (use p in auto)
  have 4: "replace_inline_code (replace_fences (''<em>'' @ t @ ''</em>'')) = ''<em>'' @ t @ ''</em>''"
    using p(2) by (simp add: replace_inline_code_def replace_delimited_none replace_fences_none)
  show ?thesis
    by (rule convert_tagged[OF assms])
      (simp_all only: 1 2 3 4, simp_all add: is_line_terminator_def find_li_skip p(4))
qed

lemma convert_inline_code:
  assumes "plain_text t"
  shows "convertMarkdownToHTML ([CHR 0x60] @ t @ [CHR 0x60]) = ''<code>'' @ t @ ''</code>''"
proof -
  note p = plain_textD[OF assms]
  let ?s = "[CHR 0x60] @ t @ [CHR 0x60]"
  have nl: "\<forall>c\<in>set ?s. \<not> is_line_terminator c"
    using p(5) by (auto simp: is_line_terminator_def)
  have 1: "replace_h1 (replace_h2 (replace_h3 ?s)) = ?s"
    by (rule heading_rules_other_line[OF nl]) simp
  have 2: "replace_italic (replace_bold ?s) = ?s"
    using p(1) by (simp add: replace_bold_def replace_italic_def replace_delimited_none)
  have 3: "replace_fences ?s = ?s" by (rule fences_keep_single_ticks[OF p(2)])
  have 4: "replace_inline_code ?s = ''<code>'' @ t @ ''</code>''"
    unfolding replace_inline_code_def by (rule replace_delimited_pair) (use p in auto)
  show ?thesis
    by (rule convert_tagged[OF assms])
      (simp_all only: 1 2 3 4, simp_all add: is_line_terminator_def find_li_skip p(4))
qed

lemma takeWhile_upto:
  "\<forall>c\<in>set t. P c \<Longrightarrow> \<not> P x \<Longrightarrow> takeWhile P (t @ x # rest) = t"
  by (induction t) simp_all

lemma dropWhile_upto:
  "\<forall>c\<in>set t. P c \<Longrightarrow> \<not> P x \<Longrightarrow> dropWhile P (t @ x # rest) = x # rest"
  by (induction t) simp_all

lemma line_rules_single_line:
  assumes "\<forall>c\<in>set s. \<not> is_line_terminator c"
    and "s = [] \<or> (hd s \<noteq> CHR ''-'' \<and> \<not> is_digit (hd s))"
  shows "replace_bullets s = s" and "replace_numbered s = s"
proof -
  show "replace_bullets s = s"
    using assms(2)
    by (simp add: replace_bullets_def replace_lines_one_line[OF assms(1)])
      (cases s; auto simp: wrap_line_def)
  show "replace_numbered s = s"
    using assms(2)
    by (simp add: replace_numbered_def replace_lines_one_line[OF assms(1)])
      (cases s; auto simp: numbered_line_def)
qed

lemma replace_links_one:
  assumes "txt \<noteq> []" "CHR '']'' \<notin> set txt" "url \<noteq> []" "CHR '')'' \<notin> set url"
  shows "replace_links (''['' @ txt @ '']('' @ url @ '')'') = anchor url txt"
proof -
  have 1: "takeWhile (\<lambda>x. x \<noteq> CHR '']'') (txt @ CHR '']'' # CHR ''('' # url @ '')'') = txt"
    "dropWhile (\<lambda>x. x \<noteq> CHR '']'') (txt @ CHR '']'' # CHR ''('' # url @ '')'') =
       CHR '']'' # CHR ''('' # url @ '')''"
  proof -
    have "\<forall>c\<in>set txt. c \<noteq> CHR '']''" using assms(2) by auto
    then show "takeWhile (\<lambda>x. x \<noteq> CHR '']'') (txt @ CHR '']'' # CHR ''('' # url @ '')'') = txt"
      "dropWhile (\<lambda>x. x \<noteq> CHR '']'') (txt @ CHR '']'' # CHR ''('' # url @ '')'') =
         CHR '']'' # CHR ''('' # url @ '')''"
      by (simp_all add: takeWhile_upto dropWhile_upto)
  qed
  have 2: "takeWhile (\<lambda>x. x \<noteq> CHR '')'') (url @ '')'') = url"
    "dropWhile (\<lambda>x. x \<noteq> CHR '')'') (url @ '')'') = '')''"
  proof -
    have "\<forall>c\<in>set url. c \<noteq> CHR '')''" using assms(4) by auto
    then show "takeWhile (\<lambda>x. x \<noteq> CHR '')'') (url @ '')'') = url"
      "dropWhile (\<lambda>x. x \<noteq> CHR '')'') (url @ '')'') = '')''"
      by (simp_all add: takeWhile_upto dropWhile_upto)
  qed
  have "replace_links (CHR ''['' # (txt @ CHR '']'' # CHR ''('' # url @ '')'')) = anchor url txt"
    using assms(1,3) by (simp add: 1 2 Let_def)
  then show ?thesis by simp
qed

lemma convert_link:
  assumes "plain_text txt" "plain_text url" "txt \<noteq> []" "CHR '']'' \<notin> set txt"
    "url \<noteq> []" "CHR '')'' \<notin> set url"
  shows "convertMarkdownToHTML (''['' @ txt @ '']('' @ url @ '')'') = anchor url txt"
proof -
  note p = plain_textD[OF assms(1)] and q = plain_textD[OF assms(2)]
  let ?s = "''['' @ txt @ '']('' @ url @ '')''"
  have nl: "\<forall>c\<in>set ?s. \<not> is_line_terminator c"
    using p(5) q(5) by (auto simp: is_line_terminator_def)
  have 1: "replace_h1 (replace_h2 (replace_h3 ?s)) = ?s"
    by (rule heading_rules_other_line[OF nl]) simp
  have 2: "replace_inline_code (replace_fences (replace_italic (replace_bold ?s))) = ?s"
    by (rule inline_rules_none) (use p q in auto)
  have 3: "replace_blank_lines ?s = ?s"
    by (rule replace_blank_lines_none) (use p q in auto)
  have b: "replace_bullets ?s = ?s" and n: "replace_numbered ?s = ?s"
    by (rule line_rules_single_line[OF nl]; simp)+
  have "find_close ''<li>'' True ?s = None"
    by (rule find_li_none) (use p q in auto)
  then have w: "wrap_list ?s = ?s" by (rule wrap_list_none)
  show ?thesis
    by (simp only: convertMarkdownToHTML_def 1 2 3 b w n replace_links_one[OF assms(3-6)])
qed

lemma replace_lines_three:
  assumes "\<forall>c\<in>set a. \<not> is_line_terminator c" "\<forall>c\<in>set b. \<not> is_line_terminator c"
    "\<forall>c\<in>set c. \<not> is_line_terminator c"
  shows "replace_lines f [] (a @ CHR 0x0A # b @ CHR 0x0A # c) =
     f a @ CHR 0x0A # f b @ CHR 0x0A # f c"
  using replace_lines_first_line[OF assms(1), of "CHR 0x0A" f "[]" "b @ CHR 0x0A # c"]
    replace_lines_first_line[OF assms(2), of "CHR 0x0A" f "[]" c]
    replace_lines_one_line[OF assms(3), of f "[]"]
  by simp

lemma replace_lines_two:
  assumes "\<forall>c\<in>set a. \<not> is_line_terminator c" "\<forall>c\<in>set b. \<not> is_line_terminator c"
  shows "replace_lines f [] (a @ CHR 0x0A # b) = f a @ CHR 0x0A # f b"
  using replace_lines_first_line[OF assms(1), of "CHR 0x0A" f "[]" b]
    replace_lines_one_line[OF assms(2), of f "[]"]
  by simp

lemma wrap_line_other:
  "l = [] \<or> hd l \<noteq> x \<Longrightarrow> wrap_line (x # m) a b l = l"
  by (cases l) (auto simp: wrap_line_def)

lemma numbered_line_other: "l = [] \<or> \<not> is_digit (hd l) \<Longrightarrow> numbered_line l = l"
  by (cases l) (auto simp: numbered_line_def)

lemma starts_blockD:
  assumes "\<not> starts_block t"
  shows "t = [] \<or> hd t \<noteq> CHR ''#''" "t = [] \<or> hd t \<noteq> CHR ''-''" "t = [] \<or> \<not> is_digit (hd t)"
  using assms by (auto simp: starts_block_def)

lemma convert_blank_line:
  assumes "plain_text a" "plain_text b" "\<not> starts_block a" "\<not> starts_block b"
  shows "convertMarkdownToHTML (a @ [CHR 0x0A, CHR 0x0A] @ b) = a @ ''</p><p>'' @ b"
proof -
  note p = plain_textD[OF assms(1)] and q = plain_textD[OF assms(2)]
  note sa = starts_blockD[OF assms(3)] and sb = starts_blockD[OF assms(4)]
  let ?s = "a @ CHR 0x0A # [] @ CHR 0x0A # b"
  let ?r = "a @ ''</p><p>'' @ b"
  have e: "a @ [CHR 0x0A, CHR 0x0A] @ b = ?s" by simp
  have hd: "replace_lines (wrap_line (CHR ''#'' # m) x y) [] ?s = ?s" for m x y
    using replace_lines_three[OF p(5) _ q(5), of "[]" "wrap_line (CHR ''#'' # m) x y"] sa(1) sb(1)
    by (simp add: wrap_line_other)
  have 1: "replace_h1 (replace_h2 (replace_h3 ?s)) = ?s"
    by (simp only: replace_h1_def replace_h2_def replace_h3_def hd)
  have 2: "replace_inline_code (replace_fences (replace_italic (replace_bold ?s))) = ?s"
    by (rule inline_rules_none) (use p q in auto)
  have 3: "replace_blank_lines ?s = ?r"
    using replace_blank_lines_skip[OF p(6), of "CHR 0x0A # CHR 0x0A # b"]
      replace_blank_lines_none[OF q(6)]
    by simp
  have nl: "\<forall>c\<in>set ?r. \<not> is_line_terminator c"
    using p(5) q(5) by (auto simp: is_line_terminator_def)
  have h: "?r = [] \<or> (hd ?r \<noteq> CHR ''-'' \<and> \<not> is_digit (hd ?r))"
    using sa by (cases a) auto
  have f: "find_close ''<li>'' True ?r = None"
    using p(4) q(4) by (simp add: find_li_skip find_li_none)
  have 4: "replace_links (replace_numbered (wrap_list (replace_bullets ?r))) = ?r"
    by (rule list_rules_single_line[OF nl h f]) (use p q in auto)
  show ?thesis
    by (simp only: e convertMarkdownToHTML_def 1 2 3 4)
qed

lemma replace_fences_one:
  assumes "list_all is_word_char lang" and "CHR 0x60 \<notin> set body"
  shows "replace_fences (''```'' @ lang @ CHR 0x0A # body @ ''```'') = code_block lang body"
proof -
  have w: "\<forall>c\<in>set lang. is_word_char c" using assms(1) by (simp add: list_all_iff)
  have n: "\<not> is_word_char (CHR 0x0A)" by (simp add: is_word_char_def is_digit_def)
  have 1: "takeWhile is_word_char (lang @ CHR 0x0A # body @ ''```'') = lang"
    "dropWhile is_word_char (lang @ CHR 0x0A # body @ ''```'') = CHR 0x0A # body @ ''```''"
    using w n by (simp_all add: takeWhile_upto dropWhile_upto)
  have 2: "find_close ''```'' True (body @ ''```'') = Some (body, [])"
    using find_close_here[of "''```''" body True "[]"] assms(2) by simp
  let ?x = "lang @ CHR 0x0A # body @ ''```''"
  have t3: "take 3 (CHR 0x60 # CHR 0x60 # CHR 0x60 # ?x) = ''```''"
    and d3: "drop 3 (CHR 0x60 # CHR 0x60 # CHR 0x60 # ?x) = ?x"
    by simp_all
  have "replace_fences (CHR 0x60 # CHR 0x60 # CHR 0x60 # ?x) = code_block lang body"
    by (subst replace_fences.simps)
      (simp only: t3 d3 1 2 Let_def list.sel list.simps simp_thms if_True option.case
        prod.case replace_fences.simps(1) append_Nil2)
  then show ?thesis by simp
qed

lemma convert_fence:
  assumes "list_all is_word_char lang" "plain_text body" "\<not> starts_block body"
  shows "convertMarkdownToHTML (''```'' @ lang @ [CHR 0x0A] @ body @ [CHR 0x0A] @ ''```'') =
     code_block lang (body @ [CHR 0x0A])"
proof -
  note p = plain_textD[OF assms(2)] and sb = starts_blockD[OF assms(3)]
  have w: "\<forall>c\<in>set lang. is_word_char c" using assms(1) by (simp add: list_all_iff)
  have nw: "\<not> is_word_char (CHR ''*'')" "\<not> is_word_char (CHR 0x60)" "\<not> is_word_char (CHR ''['')"
    "\<not> is_word_char (CHR ''<'')" "\<not> is_word_char (CHR 0x0A)" "\<not> is_word_char (CHR 0x0D)"
    by (simp_all add: is_word_char_def is_digit_def)
  have wp: "CHR ''*'' \<notin> set lang" "CHR 0x60 \<notin> set lang" "CHR ''['' \<notin> set lang"
    "CHR ''<'' \<notin> set lang" "CHR 0x0A \<notin> set lang" "\<forall>c\<in>set lang. \<not> is_line_terminator c"
    using w nw by (auto simp: is_line_terminator_def)
  let ?l1 = "''```'' @ lang"
  let ?s = "?l1 @ CHR 0x0A # body @ CHR 0x0A # ''```''"
  let ?h = "''<pre><code class=\"language-'' @ lang @ ''\">'' @ body"
  let ?r = "?h @ CHR 0x0A # ''</code></pre>''"
  have e: "''```'' @ lang @ [CHR 0x0A] @ body @ [CHR 0x0A] @ ''```'' = ?s" by simp
  have e2: "?s = ''```'' @ lang @ CHR 0x0A # (body @ [CHR 0x0A]) @ ''```''" by simp
  have r: "code_block lang (body @ [CHR 0x0A]) = ?r" by (simp add: code_block_def)
  have l1: "\<forall>c\<in>set ?l1. \<not> is_line_terminator c"
    using wp(6) by (simp add: is_line_terminator_def)
  have l3: "\<forall>c\<in>set ''```''. \<not> is_line_terminator c" by (simp add: is_line_terminator_def)
  have hd: "replace_lines (wrap_line (CHR ''#'' # m) x y) [] ?s = ?s" for m x y
    using replace_lines_three[OF l1 p(5) l3, of "wrap_line (CHR ''#'' # m) x y"] sb(1)
    by (simp add: wrap_line_other)
  have 1: "replace_h1 (replace_h2 (replace_h3 ?s)) = ?s"
    by (simp only: replace_h1_def replace_h2_def replace_h3_def hd)
  have 2: "replace_italic (replace_bold ?s) = ?s"
    using p(1) wp(1)
    by (simp add: replace_bold_def replace_italic_def replace_delimited_none)
  have 3: "replace_fences ?s = ?r"
    unfolding e2 r[symmetric] by (rule replace_fences_one[OF assms(1)]) (use p(2) in auto)
  have 4: "replace_inline_code ?r = ?r"
    unfolding replace_inline_code_def
    by (rule replace_delimited_none) (use p(2) wp(2) in simp_all)
  have hl: "CHR 0x0A \<notin> set ?h" using p(6) wp(5) by simp
  have 5: "replace_blank_lines ?r = ?r"
    using replace_blank_lines_skip[OF hl, of "CHR 0x0A # ''</code></pre>''"] by simp
  have lh: "\<forall>c\<in>set ?h. \<not> is_line_terminator c"
    using p(5) wp(6) by (simp add: is_line_terminator_def ball_Un)
  have lt: "\<forall>c\<in>set ''</code></pre>''. \<not> is_line_terminator c"
    by (simp add: is_line_terminator_def)
  have 6: "replace_bullets ?r = ?r"
    using replace_lines_two[OF lh lt, of "wrap_line ''- '' ''<li>'' ''</li>''"]
    by (simp add: replace_bullets_def wrap_line_other)
  have "find_close ''<li>'' True ?r = None"
    using p(4) wp(4) by (simp add: find_li_skip)
  then have 7: "wrap_list ?r = ?r" by (rule wrap_list_none)
  have 8: "replace_numbered ?r = ?r"
    using replace_lines_two[OF lh lt, of numbered_line]
    by (simp add: replace_numbered_def numbered_line_other)
  have 9: "replace_links ?r = ?r"
    by (rule replace_links_none) (use p(3) wp(3) in simp)
  show ?thesis
    by (simp only: e convertMarkdownToHTML_def 1 2 3 4 5 6 7 8 9 r)
qed

text \<open>
  C4, the claim as stated fails, since it is made for every input string. A fenced block
  whose info string is \<open>c++\<close> is not turned into \<open><pre><code>\<close>: the expression wants word
  characters only between the backticks and the line feed, and the backticks are then
  taken for inline code. And \<open>*x*\<close> is not turned into \<open><em>x</em>\<close> when an asterisk
  stands earlier on the line, which is paired with its first asterisk.
\<close>

theorem convertMarkdownToHTML_not_every_input:
  "convertMarkdownToHTML (''```c++'' @ [CHR 0x0A] @ ''int x;'' @ [CHR 0x0A] @ ''```'') =
     ''<code></code>`c++'' @ [CHR 0x0A] @ ''int x;'' @ [CHR 0x0A] @ ''<code></code>`'' \<and>
   convertMarkdownToHTML ''2 * 3 and *x*'' = ''2 <em> 3 and </em>x*''"
  by code_simp

text \<open>
  C4, as amended: what \<open>convertMarkdownToHTML\<close> makes of one construct that stands alone
  around plain text \<open>t\<close> (no asterisk, backtick, opening bracket, \<open><\<close> or line break in
  it). The input \<open># t\<close>, \<open>## t\<close>, \<open>### t\<close> becomes \<open><h1>t</h1>\<close>, \<open><h2>t</h2>\<close>,
  \<open><h3>t</h3>\<close>; \<open>**t**\<close> becomes \<open><strong>t</strong>\<close>; \<open>*t*\<close> becomes \<open><em>t</em>\<close>; \<open>t\<close>
  between two backticks becomes \<open><code>t</code>\<close>; a fenced block with an info string of
  word characters (it may be empty) and the one line \<open>t\<close>, which starts no block, becomes
  \<open><pre><code class="language-info">\<close> around \<open>t\<close> and its line feed; \<open>[t](u)\<close> with \<open>t\<close> not
  empty and without \<open>]\<close>, and a plain \<open>u\<close> not empty and without \<open>)\<close>, becomes the anchor to
  \<open>u\<close> with the text \<open>t\<close>; and two line feeds between the plain lines \<open>t\<close> and \<open>u\<close>, which
  start no block, become \<open></p><p>\<close>.
\<close>

theorem convertMarkdownToHTML_constructs:
  assumes "plain_text t"
  shows "convertMarkdownToHTML (''# '' @ t) = ''<h1>'' @ t @ ''</h1>'' \<and>
         convertMarkdownToHTML (''## '' @ t) = ''<h2>'' @ t @ ''</h2>'' \<and>
         convertMarkdownToHTML (''### '' @ t) = ''<h3>'' @ t @ ''</h3>'' \<and>
         convertMarkdownToHTML (''**'' @ t @ ''**'') = ''<strong>'' @ t @ ''</strong>'' \<and>
         convertMarkdownToHTML (''*'' @ t @ ''*'') = ''<em>'' @ t @ ''</em>'' \<and>
         convertMarkdownToHTML ([CHR 0x60] @ t @ [CHR 0x60]) = ''<code>'' @ t @ ''</code>'' \<and>
         (list_all is_word_char lang \<and> \<not> starts_block t \<longrightarrow>
            convertMarkdownToHTML (''```'' @ lang @ [CHR 0x0A] @ t @ [CHR 0x0A] @ ''```'') =
              ''<pre><code class=\"language-'' @ lang @ ''\">'' @ t @ [CHR 0x0A] @
              ''</code></pre>'') \<and>
         (plain_text u \<and> t \<noteq> [] \<and> CHR '']'' \<notin> set t \<and> u \<noteq> [] \<and> CHR '')'' \<notin> set u \<longrightarrow>
            convertMarkdownToHTML (''['' @ t @ '']('' @ u @ '')'') =
              ''<a href=\"'' @ u @ ''\" target=\"_blank\" rel=\"noopener noreferrer\">'' @ t @
              ''</a>'') \<and>
         (plain_text u \<and> \<not> starts_block t \<and> \<not> starts_block u \<longrightarrow>
            convertMarkdownToHTML (t @ [CHR 0x0A, CHR 0x0A] @ u) = t @ ''</p><p>'' @ u)"
proof -
  have f: "convertMarkdownToHTML (''```'' @ lang @ [CHR 0x0A] @ t @ [CHR 0x0A] @ ''```'') =
      ''<pre><code class=\"language-'' @ lang @ ''\">'' @ t @ [CHR 0x0A] @ ''</code></pre>''"
    if "list_all is_word_char lang" "\<not> starts_block t"
    using convert_fence[OF that(1) assms that(2)] by (simp add: code_block_def)
  have l: "convertMarkdownToHTML (''['' @ t @ '']('' @ u @ '')'') =
      ''<a href=\"'' @ u @ ''\" target=\"_blank\" rel=\"noopener noreferrer\">'' @ t @ ''</a>''"
    if "plain_text u" "t \<noteq> []" "CHR '']'' \<notin> set t" "u \<noteq> []" "CHR '')'' \<notin> set u"
    using convert_link[OF assms that] by (simp add: anchor_def)
  have b: "convertMarkdownToHTML (t @ [CHR 0x0A, CHR 0x0A] @ u) = t @ ''</p><p>'' @ u"
    if "plain_text u" "\<not> starts_block t" "\<not> starts_block u"
    using convert_blank_line[OF assms that] .
  from convert_heading[OF assms] convert_bold[OF assms] convert_italic[OF assms]
    convert_inline_code[OF assms] f l b
  show ?thesis by blast
qed

theorem convertMarkdownToHTML_constructs_witness:
  "plain_text ''Hello'' \<and> plain_text ''https://example.org/a'' \<and>
   list_all is_word_char ''js'' \<and> \<not> starts_block ''Hello'' \<and>
   \<not> starts_block ''https://example.org/a'' \<and>
   convertMarkdownToHTML ''# Hello'' = ''<h1>Hello</h1>'' \<and>
   convertMarkdownToHTML ''## Hello'' = ''<h2>Hello</h2>'' \<and>
   convertMarkdownToHTML ''### Hello'' = ''<h3>Hello</h3>'' \<and>
   convertMarkdownToHTML ''**Hello**'' = ''<strong>Hello</strong>'' \<and>
   convertMarkdownToHTML ''*Hello*'' = ''<em>Hello</em>'' \<and>
   convertMarkdownToHTML ''`Hello`'' = ''<code>Hello</code>'' \<and>
   convertMarkdownToHTML (''```js'' @ [CHR 0x0A] @ ''Hello'' @ [CHR 0x0A] @ ''```'') =
     ''<pre><code class=\"language-js\">Hello'' @ [CHR 0x0A] @ ''</code></pre>'' \<and>
   convertMarkdownToHTML ''[Hello](https://example.org/a)'' =
     ''<a href=\"https://example.org/a\" target=\"_blank\" rel=\"noopener noreferrer\">Hello</a>'' \<and>
   convertMarkdownToHTML (''Hello'' @ [CHR 0x0A, CHR 0x0A] @ ''https://example.org/a'') =
     ''Hello</p><p>https://example.org/a''"
proof -
  have p: "plain_text ''Hello''" "plain_text ''https://example.org/a''"
    by (simp_all add: plain_text_def is_line_terminator_def)
  have w: "list_all is_word_char ''js''" by (simp add: is_word_char_def is_digit_def)
  have s: "\<not> starts_block ''Hello''" "\<not> starts_block ''https://example.org/a''"
    by (simp_all add: starts_block_def is_digit_def)
  have n: "''Hello'' \<noteq> []" "CHR '']'' \<notin> set ''Hello''" "''https://example.org/a'' \<noteq> []"
    "CHR '')'' \<notin> set ''https://example.org/a''"
    by simp_all
  from convertMarkdownToHTML_constructs[OF p(1), of "''js''" "''https://example.org/a''"]
    p w s n
  show ?thesis by simp
qed

end
